theory Spec2Isabelle
  imports Complex_Main "HOL-Library.AList"
begin

section \<open>JavaScript values\<close>

text \<open>
  The front end is JavaScript. Its values are modelled by one datatype. A string is a
  list of characters, one \<^typ>\<open>char\<close> for each code unit below 256. An object is an
  association list read by \<^const>\<open>map_of\<close>: the first binding of a key is the
  property, the order of the list is the enumeration order (the reordering of
  integer-like keys is not modelled), and on a list with one binding for each key every
  operation below does what JavaScript does on the object. Only own properties are
  modelled: reading a name an object does not own gives \<open>undefined\<close>.

  Objects and arrays are mutable in JavaScript, so each carries its \<^emph>\<open>origin\<close>:
  \<open>Existing a\<close> for an object that was already on the heap (at address \<open>a\<close>) when
  the modelled function was called, \<open>Alloc\<close> for an object that the modelled code
  allocates (an object literal, a spread, a deep copy). A result that contains an
  \<open>Existing a\<close> object shares that object with its input.
\<close>

datatype error = TypeError | SyntaxError | Unmodelled

datatype number = NaN | PosInfinity | NegInfinity | Fin rat

datatype origin = Alloc | Existing nat

datatype jsval =
    JUndefined
  | JNull
  | JBool bool
  | JNum number
  | JStr string
  | JArr origin "jsval list"
  | JObj origin "(string \<times> jsval) list"

fun truthy :: "jsval \<Rightarrow> bool" where
  "truthy JUndefined = False"
| "truthy JNull = False"
| "truthy (JBool b) = b"
| "truthy (JNum n) = (n \<noteq> NaN \<and> n \<noteq> Fin 0)"
| "truthy (JStr s) = (s \<noteq> [])"
| "truthy (JArr _ _) = True"
| "truthy (JObj _ _) = True"

fun nullish :: "jsval \<Rightarrow> bool" where
  "nullish JUndefined = True"
| "nullish JNull = True"
| "nullish _ = False"

text \<open>A thrown exception is the value \<open>Inl e\<close>; \<open>then_do\<close> runs the rest of a function
  body when nothing was thrown.\<close>

fun then_do :: "error + 'a \<Rightarrow> ('a \<Rightarrow> error + 'b) \<Rightarrow> error + 'b" where
  "then_do (Inl e) f = Inl e"
| "then_do (Inr x) f = f x"

text \<open>\<open>a || b\<close>\<close>

definition or_else :: "jsval \<Rightarrow> jsval \<Rightarrow> jsval" where
  "or_else a b = (if truthy a then a else b)"

fun digit_char :: "nat \<Rightarrow> char" where
  "digit_char n = char_of (48 + n)"

fun string_of_nat :: "nat \<Rightarrow> string" where
  "string_of_nat n =
     (if n < 10 then [digit_char n] else string_of_nat (n div 10) @ [digit_char (n mod 10)])"

declare string_of_nat.simps [simp del]

text \<open>The own enumerable properties of a value, in enumeration order (what a spread copies).\<close>

fun own_entries :: "jsval \<Rightarrow> (string \<times> jsval) list" where
  "own_entries (JObj _ es) = AList.clearjunk es"
| "own_entries (JArr _ xs) = zip (map string_of_nat [0..<length xs]) xs"
| "own_entries (JStr s) = zip (map string_of_nat [0..<length s]) (map (\<lambda>c. JStr [c]) s)"
| "own_entries _ = []"

text \<open>\<open>Object.keys(v)\<close>, for a value that is not \<open>null\<close> or \<open>undefined\<close>.\<close>

definition object_keys :: "jsval \<Rightarrow> string list" where
  "object_keys v = map fst (own_entries v)"

text \<open>Reading the property \<open>k\<close> of a value that is not \<open>null\<close> or \<open>undefined\<close>.\<close>

fun get_own :: "jsval \<Rightarrow> string \<Rightarrow> jsval" where
  "get_own (JObj t es) k = (case map_of es k of Some x \<Rightarrow> x | None \<Rightarrow> JUndefined)"
| "get_own (JArr t xs) k =
     (if k = ''length'' then JNum (Fin (of_nat (length xs)))
      else case map_of (own_entries (JArr t xs)) k of Some x \<Rightarrow> x | None \<Rightarrow> JUndefined)"
| "get_own (JStr s) k =
     (if k = ''length'' then JNum (Fin (of_nat (length s)))
      else case map_of (own_entries (JStr s)) k of Some x \<Rightarrow> x | None \<Rightarrow> JUndefined)"
| "get_own _ k = JUndefined"

text \<open>\<open>v.k\<close> and \<open>v[k]\<close> throw a \<open>TypeError\<close> on \<open>null\<close> and \<open>undefined\<close>; \<open>v?.k\<close> gives
  \<open>undefined\<close> there.\<close>

definition getprop :: "jsval \<Rightarrow> string \<Rightarrow> error + jsval" where
  "getprop v k = (if nullish v then Inl TypeError else Inr (get_own v k))"

definition optprop :: "jsval \<Rightarrow> string \<Rightarrow> jsval" where
  "optprop v k = (if nullish v then JUndefined else get_own v k)"

text \<open>The entries of the object literal \<open>{ <base>, ...src }\<close>: the properties of \<open>src\<close> are
  defined one after the other on top of the entries written before the spread.\<close>

definition assign :: "(string \<times> jsval) list \<Rightarrow> jsval \<Rightarrow> (string \<times> jsval) list" where
  "assign base src = foldl (\<lambda>acc (k, v). AList.update k v acc) base (own_entries src)"

text \<open>\<open>target.k = v\<close> in strict mode (an ES module). A named property on an array is not
  modelled.\<close>

fun set_prop :: "jsval \<Rightarrow> string \<Rightarrow> jsval \<Rightarrow> error + jsval" where
  "set_prop (JObj t es) k v = Inr (JObj t (AList.update k v es))"
| "set_prop (JArr t xs) k v = Inl Unmodelled"
| "set_prop _ k v = Inl TypeError"

text \<open>lodash \<open>cloneDeep\<close>: every object and array of the copy is newly allocated.\<close>

primrec cloneDeep :: "jsval \<Rightarrow> jsval" where
  "cloneDeep JUndefined = JUndefined"
| "cloneDeep JNull = JNull"
| "cloneDeep (JBool b) = JBool b"
| "cloneDeep (JNum n) = JNum n"
| "cloneDeep (JStr s) = JStr s"
| "cloneDeep (JArr t xs) = JArr Alloc (map cloneDeep xs)"
| "cloneDeep (JObj t es) = JObj Alloc (map (map_prod id cloneDeep) es)"

text \<open>The origins of all objects and arrays inside a value.\<close>

primrec origins :: "jsval \<Rightarrow> origin list" where
  "origins JUndefined = []"
| "origins JNull = []"
| "origins (JBool b) = []"
| "origins (JNum n) = []"
| "origins (JStr s) = []"
| "origins (JArr t xs) = t # concat (map origins xs)"
| "origins (JObj t es) = t # concat (map snd (map (map_prod id origins) es))"

section \<open>Node factory: \<open>createNode\<close>\<close>

text \<open>
  The catalog of node types maps a category to the list of its templates. It is a list of
  pairs, one for each category, in the order \<open>for (const category in nodeTypes)\<close> visits
  them. A template is the struct the data model describes; \<open>input_def\<close> and \<open>output_def\<close>
  (its \<open>input\<close> and \<open>output\<close>) are \<open>undefined\<close> when the template has none.
\<close>

record visual_tag =
  acronym :: jsval
  color :: jsval

record template =
  name :: string
  visual_tag :: visual_tag
  config :: jsval
  input_def :: jsval
  output_def :: jsval

type_synonym catalog = "(string \<times> template list) list"

fun find_type :: "catalog \<Rightarrow> string \<Rightarrow> template option" where
  "find_type [] type = None"
| "find_type ((category, templates) # rest) type =
     (case List.find (\<lambda>node. name node = type) templates of
        Some found \<Rightarrow> Some found
      | None \<Rightarrow> find_type rest type)"

text \<open>
  \<open>createNode nodeTypes type node_id position additionalData uuid\<close>: the argument
  \<open>additionalData\<close> is \<open>undefined\<close> when the caller leaves it out (the default \<open>{}\<close>
  is then used), and \<open>uuid\<close> is the string that \<open>uuidv4()\<close> returns if it is called.
\<close>

text \<open>\<open>cloneDeep(block?.properties) || {}\<close>, for \<open>block\<close> the \<open>input\<close> or the \<open>output\<close> of a
  template.\<close>

definition default_properties :: "jsval \<Rightarrow> jsval" where
  "default_properties block = or_else (cloneDeep (optprop block ''properties'')) (JObj Alloc [])"

text \<open>The two \<open>if\<close> statements that merge the properties of \<open>additionalData.input\<close> and of
  \<open>additionalData.output\<close> into the copy of \<open>additionalData\<close>.\<close>

definition merge_block ::
  "jsval \<Rightarrow> jsval \<Rightarrow> string \<Rightarrow> jsval \<Rightarrow> error + jsval" where
  "merge_block additionalData processedAdditionalData block properties =
     (if truthy (optprop (get_own additionalData block) ''properties'') then
        set_prop processedAdditionalData block
          (JObj Alloc
            (AList.update ''properties''
               (JObj Alloc
                 (assign (assign [] properties)
                    (get_own (get_own additionalData block) ''properties'')))
               (assign [] (get_own processedAdditionalData block))))
      else Inr processedAdditionalData)"

definition createNode ::
  "catalog \<Rightarrow> string \<Rightarrow> jsval \<Rightarrow> jsval \<Rightarrow> jsval \<Rightarrow> string \<Rightarrow> error + jsval" where
  "createNode nodeTypes type node_id position additionalData0 uuid =
     (let additionalData =
            (if additionalData0 = JUndefined then JObj Alloc [] else additionalData0)
      in case find_type nodeTypes type of
        None \<Rightarrow> Inr JNull
      | Some nodeType \<Rightarrow>
          let inputProperties = default_properties (input_def nodeType);
              outputProperties = default_properties (output_def nodeType);
              processedAdditionalData0 = cloneDeep additionalData
          in if nullish additionalData then Inl TypeError
          else
            then_do
              (merge_block additionalData processedAdditionalData0 ''input'' inputProperties)
              (\<lambda>processedAdditionalData1.
            then_do
              (merge_block additionalData processedAdditionalData1 ''output'' outputProperties)
              (\<lambda>processedAdditionalData.
              if type = ''group'' then
                Inr (JObj Alloc
                  [(''id'', if truthy node_id then node_id else JStr uuid),
                   (''type'', JStr ''group''),
                   (''position'', position),
                   (''data'', JObj Alloc (assign [(''title'', JStr ''Group'')] additionalData)),
                   (''style'', JObj Alloc
                      [(''width'', JNum (Fin 300)), (''height'', JNum (Fin 300))])])
              else
                Inr (JObj Alloc
                  [(''id'', node_id),
                   (''type'', JStr (name nodeType)),
                   (''position'', position),
                   (''data'', JObj Alloc
                      (assign
                        [(''title'', JStr (name nodeType)),
                         (''acronym'', acronym (visual_tag nodeType)),
                         (''color'', color (visual_tag nodeType)),
                         (''config'', cloneDeep (config nodeType)),
                         (''input'', JObj Alloc
                            (assign [(''properties'', inputProperties)]
                               (get_own processedAdditionalData ''input''))),
                         (''output'', JObj Alloc
                            (assign [(''properties'', outputProperties)]
                               (get_own processedAdditionalData ''output'')))]
                        processedAdditionalData))]))))"

text \<open>
  \<open>node_properties node block\<close> reads \<open>node.data.<block>.properties\<close> of a node that was
  created, \<open>override_properties additionalData block\<close> reads
  \<open>additionalData.<block>?.properties\<close>, and \<open>merged_properties\<close> is the union, key by key,
  in which the overriding value wins and a key of the template alone keeps (a deep copy
  of) the value of the template.
\<close>

definition node_properties :: "jsval \<Rightarrow> string \<Rightarrow> jsval" where
  "node_properties node block = get_own (get_own (get_own node ''data'') block) ''properties''"

definition override_properties :: "jsval \<Rightarrow> string \<Rightarrow> jsval" where
  "override_properties additionalData block =
     optprop (get_own additionalData block) ''properties''"

definition merged_properties :: "jsval \<Rightarrow> jsval \<Rightarrow> string \<Rightarrow> jsval option" where
  "merged_properties template_properties overriding k =
     (case map_of (own_entries overriding) k of
        Some v \<Rightarrow> Some v
      | None \<Rightarrow> map_option cloneDeep (map_of (own_entries template_properties) k))"

section \<open>Strings and regular expressions\<close>

text \<open>
  The white space of \<open>\s\<close> and of \<open>trim\<close> (the same set), and the line terminators that
  \<open>.\<close> does not match, among the code units below 256.
\<close>

definition is_space :: "char \<Rightarrow> bool" where
  "is_space c = (of_char c \<in> {9, 10, 11, 12, 13, 32, 160 :: nat})"

definition is_line_terminator :: "char \<Rightarrow> bool" where
  "is_line_terminator c = (of_char c \<in> {10, 13 :: nat})"

definition is_digit :: "char \<Rightarrow> bool" where
  "is_digit c = (48 \<le> (of_char c :: nat) \<and> (of_char c :: nat) \<le> 57)"

text \<open>\<open>s.replace(/\s+/g, '_')\<close>: every maximal run of white space becomes one underscore.\<close>

function replace_spaces :: "string \<Rightarrow> string" where
  "replace_spaces [] = []"
| "replace_spaces (c # cs) =
     (if is_space c then CHR ''_'' # replace_spaces (dropWhile is_space cs)
      else c # replace_spaces cs)"
  by pat_completeness auto
termination
  by (relation "measure length") (auto simp: less_Suc_eq_le length_dropWhile_le)

text \<open>\<open>s.trim()\<close>\<close>

definition trim :: "string \<Rightarrow> string" where
  "trim s = rev (dropWhile is_space (rev (dropWhile is_space s)))"

text \<open>
  The regular expressions of \<open>new RegExp(pattern, 'g')\<close>, for the part of the pattern
  language modelled here: pattern characters, \<open>.\<close>, \<open>\s\<close>, an escaped syntax character,
  \<open>^\<close>, \<open>$\<close>, groups, \<open>|\<close> and the quantifiers \<open>*\<close>, \<open>+\<close>, \<open>?\<close>, greedy or lazy
  (a following \<open>?\<close>). Outside it (a character class, a braced quantifier, \<open>(?\<close>, any other
  escape) the constructor is \<open>Unmodelled\<close>. \<open>r+\<close> is \<open>r\<close> followed by \<open>r*\<close>.
\<close>

datatype regex =
    Lit char
  | AnyChar
  | WhiteSpace
  | AssertStart
  | AssertEnd
  | Eps
  | Cat regex regex
  | Alt regex regex
  | Star bool regex
  | Opt bool regex
  | Group regex

datatype quantifier = QStar | QPlus | QOpt

datatype rterm = Atom regex | Quantified regex quantifier bool | Assertion regex

fun term_regex :: "rterm \<Rightarrow> regex" where
  "term_regex (Atom r) = r"
| "term_regex (Assertion r) = r"
| "term_regex (Quantified r QStar greedy) = Star greedy r"
| "term_regex (Quantified r QPlus greedy) = Cat r (Star greedy r)"
| "term_regex (Quantified r QOpt greedy) = Opt greedy r"

text \<open>A frame is a disjunction being read: the alternatives that are complete and the terms
  of the current one, both latest first.\<close>

type_synonym frame = "regex list \<times> rterm list"

definition alternative :: "rterm list \<Rightarrow> regex" where
  "alternative terms = foldl (\<lambda>acc t. Cat (term_regex t) acc) Eps terms"

fun disjunction :: "frame \<Rightarrow> regex" where
  "disjunction (alts, terms) = foldl (\<lambda>acc a. Alt a acc) (alternative terms) alts"

fun push_term :: "rterm \<Rightarrow> frame list \<Rightarrow> frame list" where
  "push_term t [] = []"
| "push_term t ((alts, terms) # stack) = (alts, t # terms) # stack"

text \<open>A quantifier needs an atom before it; \<open>?\<close> after a greedy quantifier makes it lazy;
  anything else is the SyntaxError \<open>Nothing to repeat\<close>.\<close>

fun quantify :: "quantifier \<Rightarrow> frame list \<Rightarrow> error + frame list" where
  "quantify q ((alts, Atom r # terms) # stack) =
     Inr ((alts, Quantified r q True # terms) # stack)"
| "quantify QOpt ((alts, Quantified r q True # terms) # stack) =
     Inr ((alts, Quantified r q False # terms) # stack)"
| "quantify q stack = Inl SyntaxError"

definition is_syntax_char :: "char \<Rightarrow> bool" where
  "is_syntax_char c = (c \<in> set ''^$.*+?()[]{}|/'' \<or> c = CHR 0x5C)"

fun parse :: "frame list \<Rightarrow> string \<Rightarrow> error + regex" where
  "parse stack [] =
     (case stack of [f] \<Rightarrow> Inr (disjunction f) | _ \<Rightarrow> Inl SyntaxError)"
| "parse stack (c # cs) =
     (if c = CHR 0x5C then
        (case cs of
           [] \<Rightarrow> Inl SyntaxError
         | d # ds \<Rightarrow>
             if d = CHR ''s'' then parse (push_term (Atom WhiteSpace) stack) ds
             else if is_syntax_char d then parse (push_term (Atom (Lit d)) stack) ds
             else Inl Unmodelled)
      else if c = CHR ''('' then
        (if cs \<noteq> [] \<and> hd cs = CHR ''?'' then Inl Unmodelled else parse (([], []) # stack) cs)
      else if c = CHR '')'' then
        (case stack of
           f # parent # rest \<Rightarrow>
             parse (push_term (Atom (Group (disjunction f))) (parent # rest)) cs
         | _ \<Rightarrow> Inl SyntaxError)
      else if c = CHR ''|'' then
        (case stack of
           (alts, terms) # rest \<Rightarrow> parse ((alternative terms # alts, []) # rest) cs
         | [] \<Rightarrow> Inl SyntaxError)
      else if c = CHR ''*'' then then_do (quantify QStar stack) (\<lambda>stack'. parse stack' cs)
      else if c = CHR ''+'' then then_do (quantify QPlus stack) (\<lambda>stack'. parse stack' cs)
      else if c = CHR ''?'' then then_do (quantify QOpt stack) (\<lambda>stack'. parse stack' cs)
      else if c = CHR ''.'' then parse (push_term (Atom AnyChar) stack) cs
      else if c = CHR ''^'' then parse (push_term (Assertion AssertStart) stack) cs
      else if c = CHR ''$'' then parse (push_term (Assertion AssertEnd) stack) cs
      else if c = CHR ''['' then Inl Unmodelled
      else if c = CHR ''{'' \<and> cs \<noteq> [] \<and> is_digit (hd cs) then Inl Unmodelled
      else parse (push_term (Atom (Lit c)) stack) cs)"

text \<open>\<open>new RegExp(pattern, 'g')\<close>\<close>

definition RegExp :: "string \<Rightarrow> error + regex" where
  "RegExp pattern = parse [([], [])] pattern"

text \<open>
  Matching is backtracking with priorities. \<open>match_ends r s i\<close> lists the positions where a
  match of \<open>r\<close> that starts at position \<open>i\<close> of \<open>s\<close> can end, in the order in which the
  backtracking matcher tries them: the first one that lets the rest of the pattern
  succeed is taken. An iteration of a quantifier that matches the empty string is
  rejected, as the RepeatMatcher of the language definition does.
\<close>

function match_ends :: "regex \<Rightarrow> string \<Rightarrow> nat \<Rightarrow> nat list" where
  "match_ends (Lit c) s i = (if i < length s \<and> s ! i = c then [Suc i] else [])"
| "match_ends AnyChar s i =
     (if i < length s \<and> \<not> is_line_terminator (s ! i) then [Suc i] else [])"
| "match_ends WhiteSpace s i = (if i < length s \<and> is_space (s ! i) then [Suc i] else [])"
| "match_ends AssertStart s i = (if i = 0 then [i] else [])"
| "match_ends AssertEnd s i = (if i = length s then [i] else [])"
| "match_ends Eps s i = [i]"
| "match_ends (Cat r1 r2) s i = concat (map (match_ends r2 s) (match_ends r1 s i))"
| "match_ends (Alt r1 r2) s i = match_ends r1 s i @ match_ends r2 s i"
| "match_ends (Group r) s i = match_ends r s i"
| "match_ends (Opt greedy r) s i =
     (let taken = filter (\<lambda>j. j \<noteq> i) (match_ends r s i)
      in if greedy then taken @ [i] else i # taken)"
| "match_ends (Star greedy r) s i =
     (let more = concat (map (match_ends (Star greedy r) s)
                   (filter (\<lambda>j. i < j \<and> j \<le> length s) (match_ends r s i)))
      in if greedy then more @ [i] else i # more)"
  by pat_completeness auto
termination
  by (relation "inv_image (less_than <*lex*> less_than) (\<lambda>(r, s, i). (size r, length s - i))")
     auto

declare match_ends.simps(11) [simp del]

lemma match_ends_bounds:
  "j \<in> set (match_ends r s i) \<Longrightarrow> i \<le> length s \<Longrightarrow> i \<le> j \<and> j \<le> length s"
proof (induction r s i arbitrary: j rule: match_ends.induct)
  case (7 r1 r2 s i)
  from "7.prems"(1) obtain k
    where k: "k \<in> set (match_ends r1 s i)" and j: "j \<in> set (match_ends r2 s k)"
    by auto
  from "7.IH"(1)[OF k "7.prems"(2)] have kb: "i \<le> k \<and> k \<le> length s" .
  from "7.IH"(2)[OF k j] kb show ?case by simp
next
  case (8 r1 r2 s i)
  then show ?case by auto
next
  case (9 r s i)
  then show ?case by auto
next
  case (10 greedy r s i)
  then show ?case by (auto simp: Let_def split: if_splits)
next
  case (11 greedy r s i)
  show ?case
  proof (cases "j = i")
    case True
    with "11.prems" show ?thesis by simp
  next
    case False
    with "11.prems"(1) obtain k
      where k: "k \<in> set (match_ends r s i)" "i < k" "k \<le> length s"
        and j: "j \<in> set (match_ends (Star greedy r) s k)"
      by (subst (asm) match_ends.simps(11)) (auto simp: Let_def split: if_splits)
    have "k \<in> set (filter (\<lambda>j. i < j \<and> j \<le> length s) (match_ends r s i))"
      using k by simp
    from "11.IH"(2)[OF this j] k show ?thesis by simp
  qed
next
  case (1 c s i)
  then show ?case by (simp split: if_splits)
next
  case (2 s i)
  then show ?case by (simp split: if_splits)
next
  case (3 s i)
  then show ?case by (simp split: if_splits)
next
  case (4 s i)
  then show ?case by (simp split: if_splits)
next
  case (5 s i)
  then show ?case by (simp split: if_splits)
next
  case (6 s i)
  then show ?case by simp
qed

text \<open>One execution of the regular expression from \<open>lastIndex = i\<close>: the first position
  from \<open>i\<close> on where a match starts, and where that match ends.\<close>

function exec :: "regex \<Rightarrow> string \<Rightarrow> nat \<Rightarrow> (nat \<times> nat) option" where
  "exec r s i =
     (if length s < i then None
      else case match_ends r s i of
        [] \<Rightarrow> exec r s (Suc i)
      | e # _ \<Rightarrow> Some (i, e))"
  by pat_completeness auto
termination
  by (relation "measure (\<lambda>(r, s, i). Suc (length s) - i)") auto

declare exec.simps [simp del]

lemma exec_bounds:
  "exec r s i = Some (p, e) \<Longrightarrow> i \<le> p \<and> p \<le> e \<and> e \<le> length s"
proof (induction r s i rule: exec.induct)
  case (1 r s i)
  show ?case
  proof (cases "length s < i")
    case True
    with "1.prems" show ?thesis by (subst (asm) exec.simps) simp
  next
    case False
    show ?thesis
    proof (cases "match_ends r s i")
      case Nil
      with False "1.prems" have "exec r s (Suc i) = Some (p, e)"
        by (subst (asm) exec.simps) simp
      from "1.IH"[OF False Nil this] show ?thesis by simp
    next
      case (Cons e' es)
      with False "1.prems" have pe: "p = i" "e = e'"
        by (subst (asm) exec.simps, simp)+
      from Cons have "e' \<in> set (match_ends r s i)" by simp
      from match_ends_bounds[OF this] False pe show ?thesis by simp
    qed
  qed
qed

text \<open>
  The replacement string of \<open>String.prototype.replace\<close> is a template: \<open>$$\<close> is a dollar
  sign, \<open>$&\<close> the matched text, \<open>$`\<close> the text before the match and \<open>$'\<close> the text after
  it. \<open>$n\<close> is the \<open>n\<close>-th capture when the expression has that many groups (the model
  does not record captures: \<open>Unmodelled\<close>) and is literal text when it has no group.
\<close>

datatype part = Text char | Matched | Before | After

fun count_groups :: "regex \<Rightarrow> nat" where
  "count_groups (Group r) = Suc (count_groups r)"
| "count_groups (Cat r1 r2) = count_groups r1 + count_groups r2"
| "count_groups (Alt r1 r2) = count_groups r1 + count_groups r2"
| "count_groups (Star greedy r) = count_groups r"
| "count_groups (Opt greedy r) = count_groups r"
| "count_groups _ = 0"

fun template_parts :: "nat \<Rightarrow> string \<Rightarrow> error + part list" where
  "template_parts m [] = Inr []"
| "template_parts m [c] = Inr [Text c]"
| "template_parts m (c # d # rest) =
     (if c = CHR ''$'' \<and> d = CHR ''$'' then
        then_do (template_parts m rest) (\<lambda>ps. Inr (Text CHR ''$'' # ps))
      else if c = CHR ''$'' \<and> d = CHR ''&'' then
        then_do (template_parts m rest) (\<lambda>ps. Inr (Matched # ps))
      else if c = CHR ''$'' \<and> d = CHR 0x60 then
        then_do (template_parts m rest) (\<lambda>ps. Inr (Before # ps))
      else if c = CHR ''$'' \<and> d = CHR 0x27 then
        then_do (template_parts m rest) (\<lambda>ps. Inr (After # ps))
      else if c = CHR ''$'' \<and> is_digit d \<and> 0 < m then Inl Unmodelled
      else then_do (template_parts m (d # rest)) (\<lambda>ps. Inr (Text c # ps)))"

fun expand :: "part list \<Rightarrow> string \<Rightarrow> string \<Rightarrow> string \<Rightarrow> string" where
  "expand [] matched preceding following = []"
| "expand (Text c # ps) matched preceding following =
     c # expand ps matched preceding following"
| "expand (Matched # ps) matched preceding following =
     matched @ expand ps matched preceding following"
| "expand (Before # ps) matched preceding following =
     preceding @ expand ps matched preceding following"
| "expand (After # ps) matched preceding following =
     following @ expand ps matched preceding following"

text \<open>
  \<open>s.replace(regex, template)\<close> for a global \<open>regex\<close>, from position \<open>i\<close> on: every match is
  replaced, the search goes on where the match ended, and after an empty match one
  position further (the character passed over is kept).
\<close>

function replace_from :: "regex \<Rightarrow> part list \<Rightarrow> string \<Rightarrow> nat \<Rightarrow> string" where
  "replace_from r tpl s i =
     (if length s < i then []
      else case exec r s i of
        None \<Rightarrow> drop i s
      | Some (p, e) \<Rightarrow>
          take (p - i) (drop i s)
          @ expand tpl (take (e - p) (drop p s)) (take p s) (drop e s)
          @ (if e = p then
               (if p < length s then s ! p # replace_from r tpl s (Suc p) else [])
             else replace_from r tpl s e))"
  by pat_completeness auto
termination
proof (relation "measure (\<lambda>(r, tpl, s, i). Suc (length s) - i)", goal_cases)
  case 1
  show ?case by simp
next
  case (2 r tpl s i x p e)
  then have "exec r s i = Some (p, e)" by simp
  from exec_bounds[OF this] 2 show ?case by auto
next
  case (3 r tpl s i x p e)
  then have "exec r s i = Some (p, e)" by simp
  from exec_bounds[OF this] 3 show ?case by auto
qed

declare replace_from.simps [simp del]

section \<open>Handle rename: \<open>handleSchemaKeyEdit\<close>\<close>

text \<open>
  \<open>updateMessageVariables(message, oldKey, newKey)\<close>. The pattern is the template
  literal \<open>{{\\s*${oldKey}\\s*}}\<close>, so \<open>oldKey\<close> is read as part of the pattern, and the
  replacement is \<open>{{${newKey}}}\<close>, so \<open>newKey\<close> is read as part of the template. A
  message that is not a string has no method \<open>replace\<close>.
\<close>

definition key_pattern :: "string \<Rightarrow> string" where
  "key_pattern oldKey =
     ''{{'' @ [CHR 0x5C] @ ''s*'' @ oldKey @ [CHR 0x5C] @ ''s*'' @ ''}}''"

definition updateMessageVariables :: "jsval \<Rightarrow> string \<Rightarrow> string \<Rightarrow> error + jsval" where
  "updateMessageVariables message oldKey newKey =
     (if \<not> truthy message then Inr message
      else
        then_do (RegExp (key_pattern oldKey)) (\<lambda>regex.
          case message of
            JStr s \<Rightarrow>
              then_do (template_parts (count_groups regex) (''{{'' @ newKey @ ''}}''))
                (\<lambda>tpl. Inr (JStr (replace_from regex tpl s 0)))
          | _ \<Rightarrow> Inl TypeError))"

text \<open>
  What the handler does to the outside, in order: the two actions it dispatches to the
  store and the call \<open>setEditingField(null)\<close>. \<open>updateNodeData id data\<close> stands for the
  action with payload \<open>{id, data}\<close>, and \<open>updateEdgesOnHandleRename nodeId oldHandleId
  newHandleId schemaType\<close> for the one with these four fields.
\<close>

datatype action =
    updateNodeData jsval jsval
  | updateEdgesOnHandleRename jsval string string string
  | setEditingField_null

definition rewrite_message ::
  "jsval \<Rightarrow> string \<Rightarrow> string \<Rightarrow> string \<Rightarrow> (string \<times> jsval) list
    \<Rightarrow> error + (string \<times> jsval) list" where
  "rewrite_message cfg field oldKey newKey updatedConfig =
     (if truthy (optprop cfg field) then
        then_do (updateMessageVariables (get_own cfg field) oldKey newKey)
          (\<lambda>message. Inr (AList.update field message updatedConfig))
      else Inr updatedConfig)"

text \<open>
  \<open>handleSchemaKeyEdit\<close> of the component with props \<open>id\<close> and \<open>nodeData\<close>; \<open>cfg\<close> is
  \<open>nodeData?.config\<close>. In \<open>nodeData?.config?.[schemaType][oldKey]\<close> the last access is not
  optional: it throws when the config has no such schema.
\<close>

definition handleSchemaKeyEdit ::
  "jsval \<Rightarrow> jsval \<Rightarrow> string \<Rightarrow> string \<Rightarrow> string \<Rightarrow> error + action list" where
  "handleSchemaKeyEdit node_id nodeData oldKey newKey0 schemaType =
     (let newKey = replace_spaces newKey0 in
      if oldKey = newKey \<or> trim newKey = [] then Inr [setEditingField_null]
      else
        let cfg = optprop nodeData ''config'';
            schema = optprop cfg schemaType
        in then_do (if nullish cfg then Inr JUndefined else getprop schema oldKey)
          (\<lambda>oldValue.
            let updatedSchema =
                  AList.delete oldKey (AList.update newKey oldValue (assign [] schema));
                updatedConfig0 =
                  AList.update schemaType (JObj Alloc updatedSchema) (assign [] cfg)
            in then_do
                 (if schemaType = ''input_schema'' then
                    then_do
                      (rewrite_message cfg ''system_message'' oldKey newKey updatedConfig0)
                      (rewrite_message cfg ''user_message'' oldKey newKey)
                  else Inr updatedConfig0)
                 (\<lambda>updatedConfig.
                    Inr [updateNodeData node_id
                           (JObj Alloc [(''config'', JObj Alloc updatedConfig)]),
                         updateEdgesOnHandleRename node_id oldKey newKey schemaType,
                         setEditingField_null])))"

section \<open>Workflow serializer: \<open>saveWorkflow\<close>\<close>

text \<open>
  The store holds the nodes as an array of values (the code expects \<open>null\<close> entries and
  nodes without \<open>data\<close>) and the edges as structs with four string fields.
\<close>

record edge =
  source :: string
  sourceHandle :: string
  target :: string
  targetHandle :: string

text \<open>\<open>xs.map(f)\<close> for an \<open>f\<close> that can throw.\<close>

fun map_throwing :: "('a \<Rightarrow> error + 'b) \<Rightarrow> 'a list \<Rightarrow> error + 'b list" where
  "map_throwing f [] = Inr []"
| "map_throwing f (x # xs) =
     then_do (f x) (\<lambda>y. then_do (map_throwing f xs) (\<lambda>ys. Inr (y # ys)))"

text \<open>\<open>Object.fromEntries(entries)\<close>\<close>

definition fromEntries :: "(string \<times> jsval) list \<Rightarrow> jsval" where
  "fromEntries entries = JObj Alloc (foldl (\<lambda>acc (k, v). AList.update k v acc) [] entries)"

text \<open>\<open>Object.keys(v)\<close>, which throws on \<open>null\<close> and \<open>undefined\<close>.\<close>

definition Object_keys :: "jsval \<Rightarrow> error + string list" where
  "Object_keys v = (if nullish v then Inl TypeError else Inr (object_keys v))"

text \<open>The first callback of \<open>saveWorkflow\<close>: a node of the store with its \<open>config\<close>.\<close>

definition update_node :: "jsval \<Rightarrow> jsval \<Rightarrow> error + jsval" where
  "update_node workflowInputVariables node =
     (if get_own node ''type'' = JStr ''InputNode'' then
        then_do (getprop (get_own node ''data'') ''config'') (\<lambda>data_config.
        then_do (Object_keys workflowInputVariables) (\<lambda>keys.
          Inr (JObj Alloc
            (AList.update ''config''
               (JObj Alloc
                  (AList.update ''input_schema''
                     (fromEntries (map (\<lambda>key. (key, JStr ''str'')) keys))
                     (assign [] data_config)))
               (assign [] node)))))
      else
        Inr (JObj Alloc
          (AList.update ''title'' (optprop (get_own node ''data'') ''title'')
             (AList.update ''config'' (optprop (get_own node ''data'') ''config'')
                (assign [] node)))))"

definition node_record :: "jsval \<Rightarrow> jsval" where
  "node_record node =
     JObj Alloc
       [(''id'', get_own node ''id''),
        (''node_type'', get_own node ''type''),
        (''config'', get_own node ''config''),
        (''coordinates'', get_own node ''position'')]"

text \<open>\<open>nodes.find((node) => node.id === wanted)\<close> on the nodes of the store.\<close>

fun find_node :: "jsval list \<Rightarrow> string \<Rightarrow> error + jsval" where
  "find_node [] wanted = Inr JUndefined"
| "find_node (node # nodes) wanted =
     then_do (getprop node ''id'')
       (\<lambda>i. if i = JStr wanted then Inr node else find_node nodes wanted)"

definition link_record :: "jsval list \<Rightarrow> edge \<Rightarrow> error + jsval" where
  "link_record nodes e =
     then_do (find_node nodes (source e)) (\<lambda>sourceNode.
     then_do (find_node nodes (target e)) (\<lambda>targetNode.
       Inr (JObj Alloc
         [(''source_id'', JStr (source e)),
          (''source_output_key'', JStr (sourceHandle e)),
          (''source_output_type'',
             or_else
               (optprop (optprop (optprop (optprop sourceNode ''config'') ''data'')
                  ''output_schema'') (sourceHandle e))
               (JStr ''str'')),
          (''target_id'', JStr (target e)),
          (''target_input_key'', JStr (targetHandle e)),
          (''target_input_type'',
             or_else
               (optprop (optprop (optprop (optprop targetNode ''config'') ''data'')
                  ''input_schema'') (targetHandle e))
               (JStr ''str''))])))"

text \<open>\<open>nodes.filter((node) => node !== null && node !== undefined)\<close>\<close>

definition present_nodes :: "jsval list \<Rightarrow> jsval list" where
  "present_nodes nodes = filter (\<lambda>node. node \<noteq> JNull \<and> node \<noteq> JUndefined) nodes"

text \<open>
  \<open>saveWorkflow\<close> up to the call of \<open>updateWorkflow\<close>: \<open>Inr\<close> the document that is sent,
  \<open>Inl\<close> the exception that the \<open>catch\<close> logs, in which case nothing is sent.
\<close>

definition saveWorkflow ::
  "jsval list \<Rightarrow> edge list \<Rightarrow> jsval \<Rightarrow> jsval \<Rightarrow> jsval \<Rightarrow> error + jsval" where
  "saveWorkflow nodes edges workflowInputVariables workflowName testInputs =
     then_do
       (map_throwing (update_node workflowInputVariables) (present_nodes nodes))
       (\<lambda>updatedNodes.
     then_do (map_throwing (link_record nodes) edges) (\<lambda>links.
       Inr (JObj Alloc
         [(''name'', workflowName),
          (''definition'', JObj Alloc
             [(''nodes'', JArr Alloc (map node_record updatedNodes)),
              (''links'', JArr Alloc links),
              (''test_inputs'', testInputs)])])))"

section \<open>Config form: the fields and the free numeric input\<close>

text \<open>
  \<open>handleInputChange(key, value, isSlider)\<close> of the sidebar whose local state is
  \<open>dynamicModel\<close>. lodash \<open>set\<close> on a deep copy (\<open>updateNestedModel\<close>) is a parameter.
  The effects are the call \<open>setDynamicModel\<close> and then the update of the store, at once or
  through the debounced dispatch.
\<close>

datatype effect =
    setDynamicModel jsval
  | dispatch action
  | debouncedDispatch jsval jsval

definition handleInputChange ::
  "(jsval \<Rightarrow> string \<Rightarrow> jsval \<Rightarrow> jsval) \<Rightarrow> jsval \<Rightarrow> jsval \<Rightarrow> string \<Rightarrow> jsval \<Rightarrow> bool
    \<Rightarrow> effect list" where
  "handleInputChange updateNestedModel nodeID dynamicModel key v isSlider =
     (let updatedModel =
            (if CHR ''.'' \<in> set key then updateNestedModel dynamicModel key v
             else JObj Alloc (AList.update key v (assign [] dynamicModel)))
      in [setDynamicModel updatedModel,
          if isSlider then debouncedDispatch nodeID updatedModel
          else dispatch (updateNodeData nodeID
                 (JObj Alloc [(''config'', updatedModel)]))])"

text \<open>
  \<open>parseFloat(text)\<close>: white space at the start is skipped, and the longest prefix of the
  rest that is a decimal literal is read: an optional sign, then \<open>Infinity\<close>, or digits with
  an optional fraction and an optional exponent (one of the two digit sequences around the
  point may be missing). It is \<open>NaN\<close> when no prefix is a literal. A finite number is kept
  as the rational that the literal denotes: the rounding to the nearest double is not
  modelled, but a literal too large for a double is \<open>Infinity\<close>, and \<open>-0\<close> is \<open>0\<close>.
\<close>

definition digits_value :: "string \<Rightarrow> nat" where
  "digits_value ds = foldl (\<lambda>acc c. 10 * acc + (of_char c - 48)) 0 ds"

definition signed_integer :: "string \<Rightarrow> int option" where
  "signed_integer s =
     (let unsigned = (\<lambda>ds. let digs = takeWhile is_digit ds
                            in if digs = [] then None else Some (int (digits_value digs)))
      in case s of
           [] \<Rightarrow> None
         | c # ds \<Rightarrow>
             if c = CHR ''+'' then unsigned ds
             else if c = CHR ''-'' then map_option uminus (unsigned ds)
             else unsigned s)"

text \<open>The exponent after the digits; an \<open>e\<close> with no integer after it is not part of the
  literal.\<close>

definition exponent_part :: "string \<Rightarrow> int" where
  "exponent_part s =
     (case s of
        [] \<Rightarrow> 0
      | e # rest \<Rightarrow>
          if e = CHR ''e'' \<or> e = CHR ''E''
          then (case signed_integer rest of Some n \<Rightarrow> n | None \<Rightarrow> 0)
          else 0)"

definition scale10 :: "rat \<Rightarrow> int \<Rightarrow> rat" where
  "scale10 q e = (if 0 \<le> e then q * 10 ^ nat e else q / 10 ^ nat (- e))"

definition unsigned_decimal :: "string \<Rightarrow> rat option" where
  "unsigned_decimal s =
     (let ip = takeWhile is_digit s; r1 = dropWhile is_digit s
      in if r1 \<noteq> [] \<and> hd r1 = CHR ''.'' then
           (let fp = takeWhile is_digit (tl r1); r3 = dropWhile is_digit (tl r1)
            in if ip = [] \<and> fp = [] then None
               else Some (scale10 (of_nat (digits_value (ip @ fp)))
                            (exponent_part r3 - int (length fp))))
         else if ip = [] then None
         else Some (scale10 (of_nat (digits_value ip)) (exponent_part r1)))"

text \<open>From \<open>2^1024 - 2^970\<close> on a real number rounds to \<open>Infinity\<close>.\<close>

definition unsigned_number :: "string \<Rightarrow> number" where
  "unsigned_number s =
     (if take 8 s = ''Infinity'' then PosInfinity
      else case unsigned_decimal s of
             None \<Rightarrow> NaN
           | Some q \<Rightarrow> if 2 ^ 1024 - 2 ^ 970 \<le> q then PosInfinity else Fin q)"

fun negate :: "number \<Rightarrow> number" where
  "negate NaN = NaN"
| "negate PosInfinity = NegInfinity"
| "negate NegInfinity = PosInfinity"
| "negate (Fin q) = Fin (- q)"

definition parseFloat :: "string \<Rightarrow> number" where
  "parseFloat s =
     (case dropWhile is_space s of
        [] \<Rightarrow> NaN
      | c # r \<Rightarrow>
          if c = CHR ''-'' then negate (unsigned_number r)
          else if c = CHR ''+'' then unsigned_number r
          else unsigned_number (c # r))"

text \<open>
  What \<open>renderField\<close> returns, as far as the handlers go: each widget with the variables
  that its \<open>onChange\<close> closure has captured. \<open>Select key\<close>, \<open>SchemaEditor key\<close>,
  \<open>TextEditor key\<close>, \<open>CodeEditor key\<close>, \<open>Textarea key\<close> and \<open>Switch key\<close> call
  \<open>handleInputChange(key, \<dots>)\<close>; \<open>Slider parentPath key\<close> builds its path from both;
  \<open>NumberInput key value\<close> shows \<open>value\<close> and calls \<open>handleInputChange(key, \<dots>)\<close> with the
  number parsed; \<open>Div\<close> is the block of an object's fields. Labels, rulers and styles are
  left out.
\<close>

datatype widget =
    Select string
  | SchemaEditor string
  | TextEditor string
  | FewShotExamples
  | CodeEditor string
  | Textarea string
  | Slider string string
  | NumberInput string jsval
  | Switch string
  | Div "widget list"
  | Nothing

text \<open>\<open>path.split('.')\<close>, \<open>parts.slice(-2)\<close> and \<open>parts.join('.')\<close>\<close>

fun split_dots :: "string \<Rightarrow> string list" where
  "split_dots [] = ['''']"
| "split_dots (c # cs) =
     (if c = CHR ''.'' then [] # split_dots cs
      else case split_dots cs of
             [] \<Rightarrow> [c # []]
           | part # parts \<Rightarrow> (c # part) # parts)"

definition last_two :: "'a list \<Rightarrow> 'a list" where
  "last_two xs = drop (length xs - 2) xs"

fun join_dots :: "string list \<Rightarrow> string" where
  "join_dots [] = []"
| "join_dots [part] = part"
| "join_dots (part # parts) = part @ ''.'' @ join_dots parts"

definition full_path :: "string \<Rightarrow> string \<Rightarrow> string" where
  "full_path parentPath key = (if parentPath \<noteq> [] then parentPath @ ''.'' else []) @ key"

fun typeof :: "jsval \<Rightarrow> string" where
  "typeof JUndefined = ''undefined''"
| "typeof JNull = ''object''"
| "typeof (JBool b) = ''boolean''"
| "typeof (JNum n) = ''number''"
| "typeof (JStr s) = ''string''"
| "typeof (JArr t xs) = ''object''"
| "typeof (JObj t es) = ''object''"

text \<open>
  The first part of \<open>renderField\<close>: a field with an \<open>enum\<close> in its metadata, and the fields
  with a reserved key. \<open>metadata\<close> is \<open>getFieldMetadata\<close> (the selector behind it is not
  part of these sources).
\<close>

definition reserved_widget :: "(string \<Rightarrow> jsval) \<Rightarrow> string \<Rightarrow> string \<Rightarrow> widget option" where
  "reserved_widget metadata key parentPath =
     (let fullPath = full_path parentPath key; fieldMetadata = metadata fullPath
      in if truthy (optprop fieldMetadata ''enum'')
         then Some (Select (join_dots (last_two (split_dots fullPath))))
         else if key = ''input_schema'' then Some (SchemaEditor ''input_schema'')
         else if key = ''output_schema'' then Some (SchemaEditor ''output_schema'')
         else if key = ''system_message'' then Some (TextEditor key)
         else if key = ''user_message'' then Some (Div [TextEditor key, FewShotExamples])
         else if drop (length key - 7) key = ''_prompt'' then Some (TextEditor key)
         else if key = ''code'' then Some (CodeEditor key)
         else None)"

text \<open>The widget of a number: a slider when the metadata has a minimum or a maximum, and
  the free numeric input otherwise.\<close>

definition number_widget :: "(string \<Rightarrow> jsval) \<Rightarrow> string \<Rightarrow> jsval \<Rightarrow> string \<Rightarrow> widget" where
  "number_widget metadata key v parentPath =
     (let fieldMetadata = metadata (full_path parentPath key)
      in if truthy fieldMetadata \<and>
            (get_own fieldMetadata ''minimum'' \<noteq> JUndefined \<or>
             get_own fieldMetadata ''maximum'' \<noteq> JUndefined)
         then Slider parentPath key
         else NumberInput key v)"

definition or_reserved ::
  "(string \<Rightarrow> jsval) \<Rightarrow> string \<Rightarrow> string \<Rightarrow> widget \<Rightarrow> widget" where
  "or_reserved metadata key parentPath w =
     (case reserved_widget metadata key parentPath of Some r \<Rightarrow> r | None \<Rightarrow> w)"

text \<open>
  \<open>renderField(key, field, value, parentPath)\<close>; the recursion is on \<open>field\<close>, which is
  the first argument here. For an object it renders every sub-key with the path of the
  object as the parent path, and \<open>value?.[subKey]\<close> as the value.
\<close>

primrec renderField ::
  "jsval \<Rightarrow> (string \<Rightarrow> jsval) \<Rightarrow> string \<Rightarrow> jsval \<Rightarrow> string \<Rightarrow> widget" where
  "renderField JUndefined metadata key v parentPath =
     or_reserved metadata key parentPath Nothing"
| "renderField JNull metadata key v parentPath =
     or_reserved metadata key parentPath Nothing"
| "renderField (JBool b) metadata key v parentPath =
     or_reserved metadata key parentPath (Switch key)"
| "renderField (JNum n) metadata key v parentPath =
     or_reserved metadata key parentPath (number_widget metadata key v parentPath)"
| "renderField (JStr s) metadata key v parentPath =
     or_reserved metadata key parentPath (Textarea key)"
| "renderField (JArr t xs) metadata key v parentPath =
     or_reserved metadata key parentPath Nothing"
| "renderField (JObj t es) metadata key v parentPath =
     or_reserved metadata key parentPath
       (Div (map (\<lambda>(subKey, render).
                   render subKey (optprop v subKey) (full_path parentPath key))
              (AList.clearjunk (map (map_prod id (\<lambda>field. renderField field metadata)) es))))"

text \<open>\<open>renderConfigFields\<close>, for the node type \<open>nodeType\<close> with schema \<open>nodeSchema\<close>; \<open>None\<close>
  is \<open>null\<close>.\<close>

definition renderConfigFields ::
  "string \<Rightarrow> jsval \<Rightarrow> jsval \<Rightarrow> (string \<Rightarrow> jsval) \<Rightarrow> widget list option" where
  "renderConfigFields nodeType nodeSchema dynamicModel metadata =
     (if \<not> truthy nodeSchema \<or> \<not> truthy (get_own nodeSchema ''config'') \<or> \<not> truthy dynamicModel
      then None
      else
        let properties = get_own nodeSchema ''config'';
            keys = filter (\<lambda>key. key \<noteq> ''title'' \<and> key \<noteq> ''type'') (object_keys properties)
        in Some (map (\<lambda>key. renderField (get_own properties key) metadata key
                             (get_own dynamicModel key) (nodeType @ ''.config''))
                   keys))"

text \<open>
  The \<open>onChange\<close> of \<open>NumberInput key value\<close>, called with the text of the input.
\<close>

definition number_onChange ::
  "(jsval \<Rightarrow> string \<Rightarrow> jsval \<Rightarrow> jsval) \<Rightarrow> jsval \<Rightarrow> jsval \<Rightarrow> string \<Rightarrow> string \<Rightarrow> effect list" where
  "number_onChange updateNestedModel nodeID dynamicModel key text_value =
     (let newValue = parseFloat text_value
      in handleInputChange updateNestedModel nodeID dynamicModel key
           (JNum (if newValue = NaN then Fin 0 else newValue)) False)"

text \<open>
  The \<open>onChange\<close> of \<open>Slider parentPath key\<close>, called with the new value: the last two
  parts of the path, or the last one alone after \<open>config\<close>. (A path of the one part
  \<open>config\<close> gives \<open>undefined\<close>, on which \<open>key.includes\<close> throws.)
\<close>

definition slider_onChange ::
  "(jsval \<Rightarrow> string \<Rightarrow> jsval \<Rightarrow> jsval) \<Rightarrow> jsval \<Rightarrow> jsval \<Rightarrow> string \<Rightarrow> string \<Rightarrow> jsval
    \<Rightarrow> error + effect list" where
  "slider_onChange updateNestedModel nodeID dynamicModel parentPath key newValue =
     (let path = (if parentPath \<noteq> [] then parentPath @ ''.'' @ key else key);
          lastTwoDots = last_two (split_dots path)
      in if hd lastTwoDots = ''config'' \<and> length lastTwoDots < 2 then Inl TypeError
         else
           let finalPath = (if hd lastTwoDots = ''config'' then lastTwoDots ! 1
                            else join_dots lastTwoDots)
           in Inr (handleInputChange updateNestedModel nodeID dynamicModel finalPath newValue True))"

section \<open>Properties of objects and spreads\<close>

lemma foldl_update_conv:
  "distinct (map fst es) \<Longrightarrow>
   map_of (foldl (\<lambda>acc (k, v). AList.update k v acc) base es) = map_of base ++ map_of es"
proof (induction es arbitrary: base)
  case Nil
  then show ?case by simp
next
  case (Cons e es)
  obtain k v where e: "e = (k, v)" by (cases e)
  from Cons.prems e have k: "map_of es k = None" and d: "distinct (map fst es)"
    by (auto simp: map_of_eq_None_iff)
  have "map_of (foldl (\<lambda>acc (k, v). AList.update k v acc) base (e # es))
        = map_of (AList.update k v base) ++ map_of es"
    using Cons.IH[OF d] e by simp
  also have "\<dots> = map_of base ++ map_of (e # es)"
    using k e by (auto simp: fun_eq_iff map_add_def update_conv' split: option.splits)
  finally show ?case .
qed

text \<open>The keys of an array are the decimal numerals of its indices, all different.\<close>

definition nat_of_string :: "string \<Rightarrow> nat" where
  "nat_of_string s = foldl (\<lambda>acc c. 10 * acc + (of_char c - 48)) 0 s"

lemma nat_of_string_of_nat: "nat_of_string (string_of_nat n) = n"
proof (induction n rule: string_of_nat.induct)
  case (1 n)
  show ?case
  proof (cases "n < 10")
    case True
    then show ?thesis
      by (subst string_of_nat.simps) (simp add: nat_of_string_def)
  next
    case False
    have m: "n mod 10 < 10" by simp
    from False 1 have "nat_of_string (string_of_nat (n div 10)) = n div 10" by simp
    with False m show ?thesis
      by (subst string_of_nat.simps) (simp add: nat_of_string_def)
  qed
qed

lemma inj_string_of_nat: "inj string_of_nat"
  by (rule inj_on_inverseI[where g = nat_of_string]) (rule nat_of_string_of_nat)

lemma distinct_own_entries: "distinct (map fst (own_entries v))"
proof (cases v)
  case (JArr t xs)
  then show ?thesis
    by (simp add: distinct_map inj_on_subset[OF inj_string_of_nat])
next
  case (JStr s)
  then show ?thesis
    by (simp add: distinct_map inj_on_subset[OF inj_string_of_nat])
qed simp_all

lemma assign_conv: "map_of (assign base src) = map_of base ++ map_of (own_entries src)"
  unfolding assign_def by (rule foldl_update_conv) (rule distinct_own_entries)

lemma own_entries_cloneDeep:
  "own_entries (cloneDeep v) = map (map_prod id cloneDeep) (own_entries v)"
proof (cases v)
  case (JObj t es)
  then show ?thesis by (simp add: clearjunk_map)
next
  case (JArr t xs)
  then show ?thesis by (auto simp: zip_map2)
next
  case (JStr s)
  then show ?thesis by (auto simp: zip_map2 zip_map_map)
qed simp_all

lemma map_of_map_prod_id:
  "map_of (map (map_prod id f) es) k = map_option f (map_of es k)"
  by (induction es) auto

lemma default_properties_entries:
  "map_of (own_entries (default_properties block)) k =
   map_option cloneDeep (map_of (own_entries (optprop block ''properties'')) k)"
proof (cases "truthy (cloneDeep (optprop block ''properties''))")
  case True
  then show ?thesis
    by (simp add: default_properties_def or_else_def own_entries_cloneDeep map_of_map_prod_id)
next
  case False
  then have "own_entries (optprop block ''properties'') = []"
    by (cases "optprop block ''properties''") auto
  with False show ?thesis
    by (simp add: default_properties_def or_else_def)
qed

lemma get_own_conv:
  "k \<noteq> ''length'' \<Longrightarrow>
   get_own v k = (case map_of (own_entries v) k of Some x \<Rightarrow> x | None \<Rightarrow> JUndefined)"
  by (cases v) (simp_all add: map_of_clearjunk)

lemma get_own_absent:
  assumes "k \<notin> set (object_keys v)" and "k \<noteq> ''length''"
  shows "get_own v k = JUndefined"
proof -
  from assms(1) have "map_of (own_entries v) k = None"
    by (simp add: object_keys_def map_of_eq_None_iff)
  with assms(2) show ?thesis by (simp add: get_own_conv)
qed


section \<open>Properties of the node factory\<close>

lemma lookup_assign:
  "map_of (assign base src) k =
   (case map_of (own_entries src) k of Some v \<Rightarrow> Some v | None \<Rightarrow> map_of base k)"
  by (simp add: assign_conv map_add_def)

lemma assign_undefined: "assign base JUndefined = base"
  by (simp add: assign_def)

lemma merged_entries:
  "map_of (own_entries (JObj t (assign (assign [] (default_properties block)) overriding))) k =
   merged_properties (optprop block ''properties'') overriding k"
  by (simp add: map_of_clearjunk lookup_assign default_properties_entries merged_properties_def
      split: option.splits)

lemma merge_block_object:
  "merge_block (JObj t ov) (JObj t' es) block props =
   Inr (JObj t'
     (if truthy (override_properties (JObj t ov) block) then
        AList.update block
          (JObj Alloc (AList.update ''properties''
             (JObj Alloc (assign (assign [] props) (override_properties (JObj t ov) block)))
             (assign [] (get_own (JObj t' es) block)))) es
      else es))"
proof -
  have "truthy (override_properties (JObj t ov) block) \<Longrightarrow>
        get_own (get_own (JObj t ov) block) ''properties'' = override_properties (JObj t ov) block"
    by (auto simp: override_properties_def optprop_def split: if_splits)
  then show ?thesis
    by (auto simp: merge_block_def override_properties_def)
qed

text \<open>
  \<^bold>\<open>Claim C2\<close>, as amended. For every catalog in which \<open>find_type\<close> finds a template
  for a type other than \<open>group\<close>, and every overrides object: \<open>createNode\<close> returns a
  node, and for \<open>input\<close> (and likewise \<open>output\<close>), when the overrides have no \<open>input\<close> or
  their \<open>input\<close> carries \<open>properties\<close>, the \<open>data.input.properties\<close> of the node hold,
  key by key, the value of the overrides where they define the key and otherwise (a deep
  copy of) the value of the template: a union in which the overrides win.
\<close>

theorem createNode_merges_properties:
  assumes found: "find_type nodeTypes type = Some nodeType"
    and not_group: "type \<noteq> ''group''"
  shows "\<exists>node. createNode nodeTypes type node_id position (JObj t overrides) uuid = Inr node \<and>
    (''input'' \<notin> fst ` set overrides \<or> truthy (override_properties (JObj t overrides) ''input'') \<longrightarrow>
       (\<forall>k. map_of (own_entries (node_properties node ''input'')) k =
            merged_properties (optprop (input_def nodeType) ''properties'')
              (override_properties (JObj t overrides) ''input'') k)) \<and>
    (''output'' \<notin> fst ` set overrides \<or> truthy (override_properties (JObj t overrides) ''output'') \<longrightarrow>
       (\<forall>k. map_of (own_entries (node_properties node ''output'')) k =
            merged_properties (optprop (output_def nodeType) ''properties'')
              (override_properties (JObj t overrides) ''output'') k))"
proof -
  let ?ad = "JObj t overrides"
  let ?ov' = "map (map_prod id cloneDeep) overrides"
  let ?ip = "default_properties (input_def nodeType)"
  let ?op = "default_properties (output_def nodeType)"
  define newI where "newI = JObj Alloc (AList.update ''properties''
             (JObj Alloc (assign (assign [] ?ip) (override_properties ?ad ''input'')))
             (assign [] (get_own (JObj Alloc ?ov') ''input'')))"
  define es1 where "es1 = (if truthy (override_properties ?ad ''input'')
     then AList.update ''input'' newI ?ov' else ?ov')"
  define newO where "newO = JObj Alloc (AList.update ''properties''
             (JObj Alloc (assign (assign [] ?op) (override_properties ?ad ''output'')))
             (assign [] (get_own (JObj Alloc es1) ''output'')))"
  define es2 where "es2 = (if truthy (override_properties ?ad ''output'')
     then AList.update ''output'' newO es1 else es1)"
  define I0 where "I0 = JObj Alloc (assign [(''properties'', ?ip)] (get_own (JObj Alloc es2) ''input''))"
  define O0 where "O0 = JObj Alloc (assign [(''properties'', ?op)] (get_own (JObj Alloc es2) ''output''))"
  define data where "data = JObj Alloc (assign
                        [(''title'', JStr (name nodeType)),
                         (''acronym'', acronym (visual_tag nodeType)),
                         (''color'', color (visual_tag nodeType)),
                         (''config'', cloneDeep (config nodeType)),
                         (''input'', I0), (''output'', O0)] (JObj Alloc es2))"
  define node where "node = JObj Alloc [(''id'', node_id), (''type'', JStr (name nodeType)),
                   (''position'', position), (''data'', data)]"
  have m1: "merge_block ?ad (JObj Alloc ?ov') ''input'' ?ip = Inr (JObj Alloc es1)"
    by (simp add: merge_block_object es1_def newI_def)
  have m2: "merge_block ?ad (JObj Alloc es1) ''output'' ?op = Inr (JObj Alloc es2)"
    by (simp add: merge_block_object es2_def newO_def)
  have res: "createNode nodeTypes type node_id position ?ad uuid = Inr node"
    using found not_group
    by (simp add: createNode_def Let_def m1 m2 node_def data_def I0_def O0_def)
  have absent: "map_of ?ov' k = None \<longleftrightarrow> k \<notin> fst ` set overrides" for k
    by (simp add: map_of_map_prod_id map_of_eq_None_iff)
  have undef: "k \<notin> fst ` set overrides \<Longrightarrow> override_properties ?ad k = JUndefined" for k
    by (auto simp: override_properties_def optprop_def map_of_eq_None_iff[symmetric]
        simp del: map_of_eq_None_iff)
  have es2_in: "map_of es2 ''input'' =
     (if truthy (override_properties ?ad ''input'') then Some newI else map_of ?ov' ''input'')"
    by (simp add: es2_def es1_def update_conv')
  have es2_out: "map_of es2 ''output'' =
     (if truthy (override_properties ?ad ''output'') then Some newO else map_of ?ov' ''output'')"
    by (simp add: es2_def es1_def update_conv')
  have inp: "map_of (own_entries (node_properties node ''input'')) k =
            merged_properties (optprop (input_def nodeType) ''properties'')
              (override_properties ?ad ''input'') k"
    if "''input'' \<notin> fst ` set overrides \<or> truthy (override_properties ?ad ''input'')" for k
  proof (cases "truthy (override_properties ?ad ''input'')")
    case True
    then have "node_properties node ''input'' =
       JObj Alloc (assign (assign [] ?ip) (override_properties ?ad ''input''))"
      by (simp add: node_properties_def node_def data_def lookup_assign map_of_clearjunk es2_in
          newI_def update_conv')
    then show ?thesis by (simp only: merged_entries)
  next
    case False
    with that have a: "''input'' \<notin> fst ` set overrides" by simp
    then have n: "map_of es2 ''input'' = None" using False by (simp add: es2_in absent)
    then have "node_properties node ''input'' = ?ip"
      by (simp add: node_properties_def node_def data_def lookup_assign map_of_clearjunk I0_def
          assign_undefined)
    moreover have "own_entries (override_properties ?ad ''input'') = []"
      using undef[OF a] by simp
    ultimately show ?thesis
      by (simp add: default_properties_entries merged_properties_def)
  qed
  have outp: "map_of (own_entries (node_properties node ''output'')) k =
            merged_properties (optprop (output_def nodeType) ''properties'')
              (override_properties ?ad ''output'') k"
    if "''output'' \<notin> fst ` set overrides \<or> truthy (override_properties ?ad ''output'')" for k
  proof (cases "truthy (override_properties ?ad ''output'')")
    case True
    then have "node_properties node ''output'' =
       JObj Alloc (assign (assign [] ?op) (override_properties ?ad ''output''))"
      by (simp add: node_properties_def node_def data_def lookup_assign map_of_clearjunk es2_out
          newO_def update_conv')
    then show ?thesis by (simp only: merged_entries)
  next
    case False
    with that have a: "''output'' \<notin> fst ` set overrides" by simp
    then have n: "map_of es2 ''output'' = None" using False by (simp add: es2_out absent)
    then have "node_properties node ''output'' = ?op"
      by (simp add: node_properties_def node_def data_def lookup_assign map_of_clearjunk O0_def
          assign_undefined)
    moreover have "own_entries (override_properties ?ad ''output'') = []"
      using undef[OF a] by simp
    ultimately show ?thesis
      by (simp add: default_properties_entries merged_properties_def)
  qed
  from res inp outp show ?thesis by blast
qed



theorem createNode_merges_properties_witness:
  "\<exists>node.
     createNode
       [(''AI'', [\<lparr>name = ''LLM'', visual_tag = \<lparr>acronym = JStr ''LLM'', color = JStr ''#fff''\<rparr>,
                  config = JObj (Existing 10) [],
                  input_def = JObj (Existing 11)
                    [(''properties'', JObj (Existing 12) [(''a'', JStr ''str''), (''b'', JStr ''str'')])],
                  output_def = JUndefined\<rparr>])]
       ''LLM'' (JStr ''n1'') JNull
       (JObj (Existing 1)
          [(''input'', JObj (Existing 2)
             [(''properties'', JObj (Existing 3) [(''b'', JStr ''int''), (''c'', JStr ''int'')])])])
       ''uuid'' = Inr node \<and>
     map_of (own_entries (node_properties node ''input'')) ''a'' = Some (JStr ''str'') \<and>
     map_of (own_entries (node_properties node ''input'')) ''b'' = Some (JStr ''int'') \<and>
     map_of (own_entries (node_properties node ''input'')) ''c'' = Some (JStr ''int'') \<and>
     map_of (own_entries (node_properties node ''output'')) ''a'' = None"
proof -
  let ?t = "\<lparr>name = ''LLM'', visual_tag = \<lparr>acronym = JStr ''LLM'', color = JStr ''#fff''\<rparr>,
                  config = JObj (Existing 10) [],
                  input_def = JObj (Existing 11)
                    [(''properties'', JObj (Existing 12) [(''a'', JStr ''str''), (''b'', JStr ''str'')])],
                  output_def = JUndefined\<rparr>"
  let ?ov = "[(''input'', JObj (Existing 2)
             [(''properties'', JObj (Existing 3) [(''b'', JStr ''int''), (''c'', JStr ''int'')])])]"
  have found: "find_type [(''AI'', [?t])] ''LLM'' = Some ?t" by simp
  have not_group: "''LLM'' \<noteq> ''group''" by simp
  have i: "''input'' \<notin> fst ` set ?ov \<or> truthy (override_properties (JObj (Existing 1) ?ov) ''input'')"
    by (simp add: override_properties_def optprop_def)
  have out: "''output'' \<notin> fst ` set ?ov \<or> truthy (override_properties (JObj (Existing 1) ?ov) ''output'')"
    by simp
  from createNode_merges_properties[OF found not_group, of "JStr ''n1''" JNull "Existing 1" ?ov "''uuid''"]
  obtain node where
    res: "createNode [(''AI'', [?t])] ''LLM'' (JStr ''n1'') JNull (JObj (Existing 1) ?ov) ''uuid'' = Inr node"
    and inp: "\<And>k. map_of (own_entries (node_properties node ''input'')) k =
            merged_properties (optprop (input_def ?t) ''properties'')
              (override_properties (JObj (Existing 1) ?ov) ''input'') k"
    and outp: "\<And>k. map_of (own_entries (node_properties node ''output'')) k =
            merged_properties (optprop (output_def ?t) ''properties'')
              (override_properties (JObj (Existing 1) ?ov) ''output'') k"
    using i out by blast
  have "map_of (own_entries (node_properties node ''input'')) ''a'' = Some (JStr ''str'')"
    by (simp add: inp merged_properties_def override_properties_def optprop_def)
  moreover have "map_of (own_entries (node_properties node ''input'')) ''b'' = Some (JStr ''int'')"
    by (simp add: inp merged_properties_def override_properties_def optprop_def)
  moreover have "map_of (own_entries (node_properties node ''input'')) ''c'' = Some (JStr ''int'')"
    by (simp add: inp merged_properties_def override_properties_def optprop_def)
  moreover have "map_of (own_entries (node_properties node ''output'')) ''a'' = None"
    by (simp add: outp merged_properties_def override_properties_def optprop_def)
  ultimately show ?thesis using res by blast
qed

text \<open>
  As stated, C2 speaks of every type and every overrides argument. The type \<open>group\<close> is
  served by a branch of its own: a template named \<open>group\<close> with the input property \<open>a\<close>
  gives a node whose data has no \<open>input\<close> at all.
\<close>

theorem createNode_merge_counterexample:
  "createNode
     [(''Layout'', [\<lparr>name = ''group'', visual_tag = \<lparr>acronym = JStr ''G'', color = JStr ''#ccc''\<rparr>,
                  config = JObj (Existing 10) [],
                  input_def = JObj (Existing 11)
                    [(''properties'', JObj (Existing 12) [(''a'', JStr ''str'')])],
                  output_def = JUndefined\<rparr>])]
     ''group'' (JStr ''g1'') JNull (JObj (Existing 1) []) ''uuid''
   = Inr (JObj Alloc
       [(''id'', JStr ''g1''), (''type'', JStr ''group''), (''position'', JNull),
        (''data'', JObj Alloc [(''title'', JStr ''Group'')]),
        (''style'', JObj Alloc [(''width'', JNum (Fin 300)), (''height'', JNum (Fin 300))])])"
  by (simp add: createNode_def default_properties_def or_else_def optprop_def merge_block_def
      assign_def)

text \<open>
  The amended claim says nothing about overrides whose \<open>input\<close> has no \<open>properties\<close>: the
  last spread of \<open>createNode\<close> then replaces the \<open>input\<close> that was just built from the
  template.
\<close>

lemma createNode_block_without_properties:
  "createNode
     [(''AI'', [\<lparr>name = ''LLM'', visual_tag = \<lparr>acronym = JStr ''LLM'', color = JStr ''#fff''\<rparr>,
                  config = JObj (Existing 10) [],
                  input_def = JObj (Existing 11)
                    [(''properties'', JObj (Existing 12) [(''a'', JStr ''str'')])],
                  output_def = JUndefined\<rparr>])]
     ''LLM'' (JStr ''n1'') JNull
     (JObj (Existing 1) [(''input'', JObj (Existing 2) [(''label'', JStr ''x'')])]) ''uuid''
   = Inr (JObj Alloc
       [(''id'', JStr ''n1''), (''type'', JStr ''LLM''), (''position'', JNull),
        (''data'', JObj Alloc
           [(''title'', JStr ''LLM''), (''acronym'', JStr ''LLM''), (''color'', JStr ''#fff''),
            (''config'', JObj Alloc []),
            (''input'', JObj Alloc [(''label'', JStr ''x'')]),
            (''output'', JObj Alloc [(''properties'', JObj Alloc [])])])])"
  by (simp add: createNode_def default_properties_def or_else_def optprop_def merge_block_def
      assign_def)

text \<open>An argument that is left out is the empty object.\<close>

lemma createNode_default_argument:
  "createNode nodeTypes type node_id position JUndefined uuid =
   createNode nodeTypes type node_id position (JObj Alloc []) uuid"
  by (simp add: createNode_def)

text \<open>
  \<^bold>\<open>Claim C6\<close>, as amended. For every catalog that has a template named \<open>group\<close>,
  every truthy \<open>id\<close> and every position, \<open>createNode\<close> with the overrides \<open>{title: X}\<close>
  returns exactly \<open>{id, type: "group", position, data: {title: X}, style: {width: 300,
  height: 300}}\<close>: the title of the overrides wins over \<open>Group\<close>, and the node has no
  config, input or output.
\<close>

theorem createNode_group:
  assumes "find_type nodeTypes ''group'' = Some nodeType" and "truthy node_id"
  shows "createNode nodeTypes ''group'' node_id position (JObj t [(''title'', title)]) uuid =
     Inr (JObj Alloc
       [(''id'', node_id), (''type'', JStr ''group''), (''position'', position),
        (''data'', JObj Alloc [(''title'', title)]),
        (''style'', JObj Alloc [(''width'', JNum (Fin 300)), (''height'', JNum (Fin 300))])])"
  using assms by (simp add: createNode_def merge_block_def optprop_def assign_def)

theorem createNode_group_witness:
  "truthy (JStr ''g1'') \<and>
   createNode
     [(''Layout'', [\<lparr>name = ''group'', visual_tag = \<lparr>acronym = JStr ''G'', color = JStr ''#ccc''\<rparr>,
                  config = JObj (Existing 10) [], input_def = JUndefined, output_def = JUndefined\<rparr>])]
     ''group'' (JStr ''g1'') (JObj (Existing 5) [(''x'', JNum (Fin 10)), (''y'', JNum (Fin 20))])
     (JObj (Existing 1) [(''title'', JStr ''X'')]) ''uuid'' =
     Inr (JObj Alloc
       [(''id'', JStr ''g1''), (''type'', JStr ''group''),
        (''position'', JObj (Existing 5) [(''x'', JNum (Fin 10)), (''y'', JNum (Fin 20))]),
        (''data'', JObj Alloc [(''title'', JStr ''X'')]),
        (''style'', JObj Alloc [(''width'', JNum (Fin 300)), (''height'', JNum (Fin 300))])])"
proof -
  let ?t = "\<lparr>name = ''group'', visual_tag = \<lparr>acronym = JStr ''G'', color = JStr ''#ccc''\<rparr>,
                  config = JObj (Existing 10) [], input_def = JUndefined, output_def = JUndefined\<rparr>"
  have found: "find_type [(''Layout'', [?t])] ''group'' = Some ?t" by simp
  have id_ok: "truthy (JStr ''g1'')" by simp
  from createNode_group[OF found id_ok] id_ok show ?thesis by simp
qed

text \<open>
  As stated, C6 speaks of every id and every catalog. A falsy id is replaced by a fresh
  uuid (\<open>id || uuidv4()\<close>):
\<close>

theorem createNode_group_counterexample:
  "createNode
     [(''Layout'', [\<lparr>name = ''group'', visual_tag = \<lparr>acronym = JStr ''G'', color = JStr ''#ccc''\<rparr>,
                  config = JObj (Existing 10) [], input_def = JUndefined, output_def = JUndefined\<rparr>])]
     ''group'' JUndefined JNull (JObj (Existing 1) [(''title'', JStr ''X'')]) ''uuid'' =
     Inr (JObj Alloc
       [(''id'', JStr ''uuid''), (''type'', JStr ''group''), (''position'', JNull),
        (''data'', JObj Alloc [(''title'', JStr ''X'')]),
        (''style'', JObj Alloc [(''width'', JNum (Fin 300)), (''height'', JNum (Fin 300))])])"
  by (simp add: createNode_def merge_block_def optprop_def assign_def)

text \<open>And the lookup of the type comes before the branch for \<open>group\<close>, so a catalog without
  a template of that name gives \<open>null\<close>:\<close>

lemma createNode_group_not_in_catalog:
  "createNode
     [(''AI'', [\<lparr>name = ''LLM'', visual_tag = \<lparr>acronym = JStr ''LLM'', color = JStr ''#fff''\<rparr>,
                  config = JObj (Existing 10) [], input_def = JUndefined, output_def = JUndefined\<rparr>])]
     ''group'' (JStr ''g1'') (JObj (Existing 5) [(''x'', JNum (Fin 10)), (''y'', JNum (Fin 20))])
     (JObj (Existing 1) [(''title'', JStr ''X'')]) ''uuid'' = Inr JNull"
  by (simp add: createNode_def)

text \<open>
  \<^bold>\<open>Claim C3\<close> says that the node returned shares no mutable structure with the
  catalog or the overrides. The code copies the template and copies the overrides into
  \<open>processedAdditionalData\<close>, but then spreads the properties of the original
  \<open>additionalData.input.properties\<close>, and in the branch for \<open>group\<close> the original
  \<open>additionalData\<close>. Both spreads are shallow: in the first node below the descriptor of
  the property \<open>q\<close> is the very object (at address 4) of the overrides, in the second the
  \<open>config\<close> is the object (at address 2) of the overrides. The theorem lists the objects
  of each node that \<open>createNode\<close> did not allocate.
\<close>

theorem createNode_shares_overrides:
  "map_sum id (\<lambda>node. filter (\<lambda>t. t \<noteq> Alloc) (origins node))
     (createNode
       [(''AI'', [\<lparr>name = ''LLM'', visual_tag = \<lparr>acronym = JStr ''LLM'', color = JStr ''#fff''\<rparr>,
                  config = JObj (Existing 10) [],
                  input_def = JObj (Existing 11)
                    [(''properties'', JObj (Existing 12) [(''a'', JObj (Existing 13) [(''type'', JStr ''str'')])])],
                  output_def = JUndefined\<rparr>])]
       ''LLM'' (JStr ''n1'') JNull
       (JObj (Existing 1)
          [(''input'', JObj (Existing 2)
             [(''properties'', JObj (Existing 3) [(''q'', JObj (Existing 4) [(''type'', JStr ''str'')])])])])
       ''uuid'') = Inr [Existing 4]
   \<and>
   map_sum id (\<lambda>node. filter (\<lambda>t. t \<noteq> Alloc) (origins node))
     (createNode
       [(''Layout'', [\<lparr>name = ''group'', visual_tag = \<lparr>acronym = JStr ''G'', color = JStr ''#ccc''\<rparr>,
                  config = JObj (Existing 10) [], input_def = JUndefined, output_def = JUndefined\<rparr>])]
       ''group'' (JStr ''g1'') JNull
       (JObj (Existing 1) [(''title'', JStr ''X''), (''config'', JObj (Existing 2) [(''a'', JNum (Fin 1))])])
       ''uuid'') = Inr [Existing 2]"
  by (simp add: createNode_def default_properties_def or_else_def optprop_def merge_block_def
      assign_def)

section \<open>Properties of the handle rename\<close>

text \<open>After \<open>replace(/\\s+/g, '_')\<close> no white space is left, so the \<open>trim\<close> in the guard of
  \<open>handleSchemaKeyEdit\<close> changes nothing: the guard only stops the empty string.\<close>

lemma replace_spaces_no_space: "c \<in> set (replace_spaces s) \<Longrightarrow> \<not> is_space c"
proof (induction s arbitrary: c rule: replace_spaces.induct)
  case 1
  then show ?case by simp
next
  case (2 d ds)
  have underscore: "\<not> is_space CHR ''_''" by (simp add: is_space_def)
  show ?case
  proof (cases "is_space d")
    case True
    with "2.prems" have "c = CHR ''_'' \<or> c \<in> set (replace_spaces (dropWhile is_space ds))"
      by simp
    with "2.IH"(1)[OF True] underscore show ?thesis by blast
  next
    case False
    with "2.prems" have "c = d \<or> c \<in> set (replace_spaces ds)" by simp
    with "2.IH"(2)[OF False] False show ?thesis by blast
  qed
qed

lemma replace_spaces_Nil_iff: "replace_spaces s = [] \<longleftrightarrow> s = []"
  by (cases s) simp_all

lemma dropWhile_none: "\<forall>c\<in>set s. \<not> P c \<Longrightarrow> dropWhile P s = s"
  by (cases s) simp_all

lemma trim_replace_spaces: "trim (replace_spaces s) = replace_spaces s"
proof -
  have "\<forall>c\<in>set (replace_spaces s). \<not> is_space c"
    using replace_spaces_no_space by blast
  then show ?thesis by (simp add: trim_def dropWhile_none)
qed

lemma handleSchemaKeyEdit_no_change:
  assumes "replace_spaces newKey = oldKey \<or> newKey = []"
  shows "handleSchemaKeyEdit node_id nodeData oldKey newKey schemaType = Inr [setEditingField_null]"
proof -
  from assms have "oldKey = replace_spaces newKey \<or> trim (replace_spaces newKey) = []"
    by (auto simp: trim_def)
  then show ?thesis
    unfolding handleSchemaKeyEdit_def Let_def by (simp only: if_True)
qed


lemma rewrite_message_Inl:
  "rewrite_message cfg field oldKey newKey uc = Inl e \<Longrightarrow>
   updateMessageVariables (get_own cfg field) oldKey newKey = Inl e"
  by (cases "updateMessageVariables (get_own cfg field) oldKey newKey")
     (auto simp: rewrite_message_def split: if_splits)



text \<open>
  A key is free of pattern syntax when none of its characters is one that the pattern
  language reads as an operator (\<open>^ $ . * + ? ( ) [ ] { } |\<close> and the backslash). For such
  a key \<open>new RegExp\<close> returns, and the pattern is the one the code means: two braces, white
  space, the characters of the key, white space, two braces.
\<close>

definition pattern_free :: "string \<Rightarrow> bool" where
  "pattern_free key = (\<forall>c\<in>set key. c \<notin> set ''^$.*+?()[]{}|'' \<and> c \<noteq> CHR 0x5C)"

definition literals :: "string \<Rightarrow> regex \<Rightarrow> regex" where
  "literals key r = foldr (\<lambda>c. Cat (Lit c)) key r"

definition key_regex :: "string \<Rightarrow> regex" where
  "key_regex key =
     Cat (Lit CHR ''{'') (Cat (Lit CHR ''{'') (Cat (Star True WhiteSpace)
       (literals key
          (Cat (Star True WhiteSpace) (Cat (Lit CHR ''}'') (Cat (Lit CHR ''}'') Eps))))))"

lemma parse_plain:
  assumes "pattern_free key"
  shows "parse ((alts, terms) # stack) (key @ rest) =
         parse ((alts, rev (map (\<lambda>c. Atom (Lit c)) key) @ terms) # stack) rest"
  using assms
proof (induction key arbitrary: terms)
  case Nil
  then show ?case by simp
next
  case (Cons c key)
  from Cons.prems have c: "c \<notin> set ''^$.*+?()[]{}|'' \<and> c \<noteq> CHR 0x5C" and k: "pattern_free key"
    by (simp_all add: pattern_free_def)
  from c have "parse ((alts, terms) # stack) ((c # key) @ rest) =
        parse ((alts, Atom (Lit c) # terms) # stack) (key @ rest)"
    by auto
  with Cons.IH[OF k, of "Atom (Lit c) # terms"] show ?case by simp
qed

lemma alternative_literals:
  "foldl (\<lambda>acc t. Cat (term_regex t) acc) r (rev (map (\<lambda>c. Atom (Lit c)) key) @ terms) =
   foldl (\<lambda>acc t. Cat (term_regex t) acc) (literals key r) terms"
  by (induction key arbitrary: r rule: rev_induct) (simp_all add: literals_def)

lemma RegExp_plain:
  assumes "pattern_free key"
  shows "RegExp (key_pattern key) = Inr (key_regex key)"
proof -
  have "RegExp (key_pattern key) =
        parse [([], [Quantified WhiteSpace QStar True, Atom (Lit CHR ''{''), Atom (Lit CHR ''{'')])]
          (key @ [CHR 0x5C] @ ''s*'' @ ''}}'')"
    by (simp add: RegExp_def key_pattern_def is_digit_def)
  also have "\<dots> = parse [([], rev (map (\<lambda>c. Atom (Lit c)) key) @
            [Quantified WhiteSpace QStar True, Atom (Lit CHR ''{''), Atom (Lit CHR ''{'')])]
          ([CHR 0x5C] @ ''s*'' @ ''}}'')"
    by (rule parse_plain[OF assms])
  also have "\<dots> = Inr (key_regex key)"
    using alternative_literals[of "Cat (Star True WhiteSpace) (Cat (Lit CHR ''}'') (Cat (Lit CHR ''}'') Eps))"
        key "[Quantified WhiteSpace QStar True, Atom (Lit CHR ''{''), Atom (Lit CHR ''{'')]"]
    by (simp add: alternative_def key_regex_def is_digit_def)
  finally show ?thesis .
qed









lemmas handler_eval =
  handleSchemaKeyEdit_def rewrite_message_def updateMessageVariables_def key_pattern_def
  RegExp_def optprop_def getprop_def assign_def trim_def is_space_def is_digit_def
  is_syntax_char_def is_line_terminator_def alternative_def exec.simps
  replace_from.simps match_ends.simps(11) Let_def

lemma handleSchemaKeyEdit_collision_example:
  "handleSchemaKeyEdit (JStr ''n1'')
     (JObj (Existing 0)
        [(''config'', JObj (Existing 1)
           [(''input_schema'', JObj (Existing 2) [(''foo'', JStr ''str''), (''bar'', JStr ''int'')]),
            (''system_message'', JStr ''Hi {{ foo }}'')])])
     ''foo'' ''bar'' ''input_schema''
   = Inr [updateNodeData (JStr ''n1'')
            (JObj Alloc
               [(''config'', JObj Alloc
                  [(''input_schema'', JObj Alloc [(''bar'', JStr ''str'')]),
                   (''system_message'', JStr ''Hi {{bar}}'')])]),
          updateEdgesOnHandleRename (JStr ''n1'') ''foo'' ''bar'' ''input_schema'',
          setEditingField_null]"
  by (simp add: handler_eval)



text \<open>Where the key has pattern syntax and there is a message to rewrite, the handler may
  throw before it dispatches anything (see C9); C5 as amended does not speak of these
  keys.\<close>

lemma handleSchemaKeyEdit_collision_syntax_error:
  "handleSchemaKeyEdit (JStr ''n1'')
     (JObj (Existing 0)
        [(''config'', JObj (Existing 1)
           [(''input_schema'', JObj (Existing 2) [(''c++'', JStr ''str''), (''x'', JStr ''int'')]),
            (''system_message'', JStr ''Use {{c++}}'')])])
     ''c++'' ''x'' ''input_schema''
   = Inl SyntaxError"
  by (simp add: handler_eval)

text \<open>Renaming a key of letters rewrites its placeholders in both messages, whatever white
  space they have inside the braces:\<close>

lemma handleSchemaKeyEdit_renames_example:
  "handleSchemaKeyEdit (JStr ''n1'')
     (JObj (Existing 0)
        [(''config'', JObj (Existing 1)
           [(''input_schema'', JObj (Existing 2) [(''foo'', JStr ''str'')]),
            (''system_message'', JStr ''Hi {{ foo }} and {{foo}}''),
            (''user_message'', JStr ''{{foo  }}?'')])])
     ''foo'' ''first name'' ''input_schema''
   = Inr [updateNodeData (JStr ''n1'')
            (JObj Alloc
               [(''config'', JObj Alloc
                  [(''input_schema'', JObj Alloc [(''first_name'', JStr ''str'')]),
                   (''system_message'', JStr ''Hi {{first_name}} and {{first_name}}''),
                   (''user_message'', JStr ''{{first_name}}?'')])]),
          updateEdgesOnHandleRename (JStr ''n1'') ''foo'' ''first_name'' ''input_schema'',
          setEditingField_null]"
  by (simp add: handler_eval)

text \<open>
  \<^bold>\<open>Claim C1\<close> says that renaming any key of the input schema gives a config update
  with the schema renamed, every placeholder \<open>{{ oldKey }}\<close> of the two messages rewritten
  to \<open>{{newKey}}\<close>, and an edge update. But \<open>updateMessageVariables\<close> pastes the key into
  the pattern without escaping it, so a key with a character of the pattern language is
  read as a pattern. For the key \<open>a+b\<close> the pattern matches \<open>{{ab}}\<close>, \<open>{{aab}}\<close>, ... and
  not \<open>{{a+b}}\<close>: the schema is renamed and the edge update is issued, but the placeholder
  in the message stays, and names a key that the schema no longer has.
\<close>

theorem handleSchemaKeyEdit_unescaped_key:
  "handleSchemaKeyEdit (JStr ''n1'')
     (JObj (Existing 0)
        [(''config'', JObj (Existing 1)
           [(''input_schema'', JObj (Existing 2) [(''a+b'', JStr ''str'')]),
            (''system_message'', JStr ''Sum: {{a+b}}'')])])
     ''a+b'' ''total'' ''input_schema''
   = Inr [updateNodeData (JStr ''n1'')
            (JObj Alloc
               [(''config'', JObj Alloc
                  [(''input_schema'', JObj Alloc [(''total'', JStr ''str'')]),
                   (''system_message'', JStr ''Sum: {{a+b}}'')])]),
          updateEdgesOnHandleRename (JStr ''n1'') ''a+b'' ''total'' ''input_schema'',
          setEditingField_null]"
  by (simp add: handler_eval)

text \<open>The new key is pasted into the replacement template in the same way: \<open>$&\<close> in it
  stands for the matched text.\<close>

lemma handleSchemaKeyEdit_template_key:
  "handleSchemaKeyEdit (JStr ''n1'')
     (JObj (Existing 0)
        [(''config'', JObj (Existing 1)
           [(''input_schema'', JObj (Existing 2) [(''foo'', JStr ''str'')]),
            (''system_message'', JStr ''Hi {{foo}}'')])])
     ''foo'' ''$&'' ''input_schema''
   = Inr [updateNodeData (JStr ''n1'')
            (JObj Alloc
               [(''config'', JObj Alloc
                  [(''input_schema'', JObj Alloc [(''$&'', JStr ''str'')]),
                   (''system_message'', JStr ''Hi {{{{foo}}}}'')])]),
          updateEdgesOnHandleRename (JStr ''n1'') ''foo'' ''$&'' ''input_schema'',
          setEditingField_null]"
  by (simp add: handler_eval)

text \<open>
  \<^bold>\<open>Claim C9\<close> says that \<open>handleSchemaKeyEdit\<close> never throws, also for keys with
  characters of the pattern language such as \<open>(\<close>. With the key \<open>(\<close> and a message to
  rewrite, \<open>new RegExp\<close> throws a SyntaxError (an unterminated group), which nothing in the
  handler catches.
\<close>

theorem handleSchemaKeyEdit_throws:
  "handleSchemaKeyEdit (JStr ''n1'')
     (JObj (Existing 0)
        [(''config'', JObj (Existing 1)
           [(''input_schema'', JObj (Existing 2) [(''('', JStr ''str'')]),
            (''system_message'', JStr ''Hello'')])])
     ''('' ''x'' ''input_schema''
   = Inl SyntaxError"
  by (simp add: handler_eval)

text \<open>
  \<^bold>\<open>Claim C4\<close> says that a new key that normalizes to the old key, or is empty or only
  white space, changes nothing. For a new key that normalizes to the old key and for
  the empty string this is lemma \<open>handleSchemaKeyEdit_no_change\<close>. But the guard trims the
  key after the white space has been replaced: a key of three spaces has become \<open>_\<close> by
  then, passes the guard, and the key \<open>foo\<close> is renamed to \<open>_\<close> in the schema and on the
  edges.
\<close>

theorem handleSchemaKeyEdit_whitespace_key:
  "handleSchemaKeyEdit (JStr ''n1'')
     (JObj (Existing 0)
        [(''config'', JObj (Existing 1)
           [(''input_schema'', JObj (Existing 2) [(''foo'', JStr ''str'')])])])
     ''foo'' ''   '' ''input_schema''
   = Inr [updateNodeData (JStr ''n1'')
            (JObj Alloc
               [(''config'', JObj Alloc
                  [(''input_schema'', JObj Alloc [(''_'', JStr ''str'')])])]),
          updateEdgesOnHandleRename (JStr ''n1'') ''foo'' ''_'' ''input_schema'',
          setEditingField_null]"
  by (simp add: handler_eval)

section \<open>The message rewrite for plain keys\<close>

text \<open>
  A key is plain when it is not empty and has neither a syntax character of the pattern
  language nor white space (the keys that the handler writes have no white space: it
  replaces every run by an underscore). A plain key is free of pattern syntax, so its
  pattern is \<open>key_regex\<close>.
\<close>

definition plain_key :: "string \<Rightarrow> bool" where
  "plain_key key = (key \<noteq> [] \<and> (\<forall>c\<in>set key. \<not> is_syntax_char c \<and> \<not> is_space c))"

text \<open>
  The rewrite as the specification words it, with no regular expression:
  \<open>placeholder_rest key s\<close> is what follows a placeholder of \<open>key\<close> at the start of \<open>s\<close>,
  when \<open>s\<close> starts with one: two opening braces, any white space, the key, any white
  space, two closing braces.
\<close>

definition placeholder_rest :: "string \<Rightarrow> string \<Rightarrow> string option" where
  "placeholder_rest key s =
     (case s of
        c1 # c2 # r \<Rightarrow>
          if c1 = CHR ''{'' \<and> c2 = CHR ''{'' then
            (let r1 = dropWhile is_space r in
             if take (length key) r1 = key then
               (case dropWhile is_space (drop (length key) r1) of
                  d1 # d2 # rest \<Rightarrow> if d1 = CHR ''}'' \<and> d2 = CHR ''}'' then Some rest else None
                | _ \<Rightarrow> None)
             else None)
          else None
      | _ \<Rightarrow> None)"

text \<open>The matcher on the pattern of a plain key: it has at most one way to match at a
  position, and \<open>token_end key s i\<close> is where that match ends.\<close>

lemma match_Lit_Cat:
  "match_ends (Cat (Lit c) r) s i =
   (case drop i s of [] \<Rightarrow> [] | x # xs \<Rightarrow> if x = c then match_ends r s (Suc i) else [])"
proof (cases "i < length s")
  case True
  then have "drop i s = s ! i # drop (Suc i) s" by (simp add: Cons_nth_drop_Suc)
  with True show ?thesis by simp
next
  case False
  then show ?thesis by simp
qed

lemma match_literals:
  "match_ends (literals key r) s i =
   (if take (length key) (drop i s) = key then match_ends r s (i + length key) else [])"
proof (induction key arbitrary: i)
  case Nil
  then show ?case by (simp add: literals_def)
next
  case (Cons c key)
  have l: "literals (c # key) r = Cat (Lit c) (literals key r)" by (simp add: literals_def)
  show ?case
  proof (cases "drop i s")
    case Nil
    then show ?thesis by (simp add: l match_Lit_Cat del: match_ends.simps)
  next
    case (Cons x xs)
    then have "i < length s" by (cases "i < length s") auto
    with Cons have xs: "drop (Suc i) s = xs"
      by (metis Cons_nth_drop_Suc list.inject)
    with Cons Cons.IH[of "Suc i"] show ?thesis
      by (simp add: l match_Lit_Cat del: match_ends.simps)
  qed
qed

lemma star_space_then:
  assumes "\<And>j. j < length s \<Longrightarrow> is_space (s ! j) \<Longrightarrow> f j = []"
  shows "concat (map f (match_ends (Star True WhiteSpace) s i)) =
         f (i + length (takeWhile is_space (drop i s)))"
proof (induction "length s - i" arbitrary: i rule: less_induct)
  case less
  show ?case
  proof (cases "i < length s \<and> is_space (s ! i)")
    case True
    then have d: "drop i s = s ! i # drop (Suc i) s" by (simp add: Cons_nth_drop_Suc)
    from True have m: "match_ends (Star True WhiteSpace) s i =
          match_ends (Star True WhiteSpace) s (Suc i) @ [i]"
      by (subst match_ends.simps(11)) simp
    from True have "length s - Suc i < length s - i" by arith
    from less[OF this] True assms[of i] show ?thesis
      by (simp add: m d)
  next
    case False
    then have m: "match_ends (Star True WhiteSpace) s i = [i]"
      by (subst match_ends.simps(11)) auto
    from False have "takeWhile is_space (drop i s) = []"
      by (cases "i < length s") (auto simp: takeWhile_eq_Nil_iff hd_drop_conv_nth)
    with m show ?thesis by simp
  qed
qed


lemma drop_Cons2:
  assumes "drop i s = c1 # c2 # r"
  shows "drop (Suc (Suc i)) s = r" and "Suc (Suc i) \<le> length s"
proof -
  have "drop (Suc (Suc i)) s = drop (Suc (Suc 0)) (drop i s)" by (subst drop_drop) simp
  also have "\<dots> = r" unfolding assms by simp
  finally show "drop (Suc (Suc i)) s = r" .
  from assms have "length (drop i s) = Suc (Suc (length r))" by simp
  then show "Suc (Suc i) \<le> length s" by simp
qed

definition token_end :: "string \<Rightarrow> string \<Rightarrow> nat \<Rightarrow> nat option" where
  "token_end key s i =
     (case drop i s of
        c1 # c2 # _ \<Rightarrow>
          if c1 = CHR ''{'' \<and> c2 = CHR ''{'' then
            (let j1 = Suc (Suc i) + length (takeWhile is_space (drop (Suc (Suc i)) s)) in
             if take (length key) (drop j1 s) = key then
               (let j3 = j1 + length key
                           + length (takeWhile is_space (drop (j1 + length key) s)) in
                case drop j3 s of
                  d1 # d2 # _ \<Rightarrow>
                    if d1 = CHR ''}'' \<and> d2 = CHR ''}'' then Some (Suc (Suc j3)) else None
                | _ \<Rightarrow> None)
             else None)
          else None
      | _ \<Rightarrow> None)"

lemma placeholder_rest_drop:
  "placeholder_rest key (drop i s) = map_option (\<lambda>e. drop e s) (token_end key s i)"
proof (cases "drop i s")
  case Nil
  then show ?thesis by (simp add: placeholder_rest_def token_end_def)
next
  case (Cons c1 t)
  show ?thesis
  proof (cases t)
    case Nil
    with Cons show ?thesis by (simp add: placeholder_rest_def token_end_def)
  next
    case (Cons c2 r)
    with \<open>drop i s = c1 # t\<close> have d: "drop i s = c1 # c2 # r" by simp
    note r = drop_Cons2(1)[OF d]
    define j1 where "j1 = Suc (Suc i) + length (takeWhile is_space r)"
    have r1: "dropWhile is_space r = drop j1 s"
      by (simp add: dropWhile_eq_drop j1_def r[symmetric] add.commute)
    define j3 where
      "j3 = j1 + length key + length (takeWhile is_space (drop (j1 + length key) s))"
    have r2: "dropWhile is_space (drop (length key) (drop j1 s)) = drop j3 s"
      by (simp add: dropWhile_eq_drop j3_def add.commute add.left_commute)
    have P: "placeholder_rest key (drop i s) =
      (if c1 = CHR ''{'' \<and> c2 = CHR ''{'' then
         if take (length key) (drop j1 s) = key then
           (case drop j3 s of
              d1 # d2 # rest \<Rightarrow> if d1 = CHR ''}'' \<and> d2 = CHR ''}'' then Some rest else None
            | _ \<Rightarrow> None)
         else None
       else None)"
      by (simp only: placeholder_rest_def d list.case Let_def r1 r2)
    have T: "token_end key s i =
      (if c1 = CHR ''{'' \<and> c2 = CHR ''{'' then
         if take (length key) (drop j1 s) = key then
           (case drop j3 s of
              d1 # d2 # _ \<Rightarrow>
                if d1 = CHR ''}'' \<and> d2 = CHR ''}'' then Some (Suc (Suc j3)) else None
            | _ \<Rightarrow> None)
         else None
       else None)"
      by (simp only: token_end_def d list.case Let_def r j1_def[symmetric] j3_def[symmetric])
    have rest: "drop j3 s = d1 # d2 # rest \<Longrightarrow> drop (Suc (Suc j3)) s = rest" for d1 d2 rest
      by (rule drop_Cons2(1))
    show ?thesis
      unfolding P T by (auto split: list.splits simp: rest)
  qed
qed

lemma token_end_bounds:
  "token_end key s i = Some e \<Longrightarrow> i < e \<and> e \<le> length s"
  by (auto simp: token_end_def Let_def split: list.splits if_splits dest: drop_Cons2(2))

lemma match_key_regex:
  assumes "plain_key key"
  shows "match_ends (key_regex key) s i =
         (case token_end key s i of Some e \<Rightarrow> [e] | None \<Rightarrow> [])"
proof -
  let ?R3 = "Cat (Lit CHR ''}'') (Cat (Lit CHR ''}'') Eps)"
  let ?R2 = "Cat (Star True WhiteSpace) ?R3"
  let ?R1 = "literals key ?R2"
  from assms obtain c key' where key: "key = c # key'" and c: "\<not> is_space c"
    by (cases key) (auto simp: plain_key_def)
  have close: "\<not> is_space CHR ''}''" by (simp add: is_space_def)
  have R3: "match_ends ?R3 s j =
     (case drop j s of
        d1 # d2 # _ \<Rightarrow> if d1 = CHR ''}'' \<and> d2 = CHR ''}'' then [Suc (Suc j)] else []
      | _ \<Rightarrow> [])" for j
  proof (cases "drop j s")
    case Nil
    then show ?thesis by (simp add: match_Lit_Cat del: match_ends.simps)
  next
    case (Cons d1 t)
    then have "j < length s" by (cases "j < length s") auto
    with Cons have t: "drop (Suc j) s = t" by (metis Cons_nth_drop_Suc list.inject)
    show ?thesis
      by (cases t) (simp_all add: match_Lit_Cat Cons t del: match_ends.simps(7))
  qed
  have R3_space: "match_ends ?R3 s j = []" if "j < length s" "is_space (s ! j)" for j
    using that close by auto
  have R2: "match_ends ?R2 s j =
            match_ends ?R3 s (j + length (takeWhile is_space (drop j s)))" for j
    using star_space_then[of s "match_ends ?R3 s" j, OF R3_space] by simp
  have R1_space: "match_ends ?R1 s j = []" if "j < length s" "is_space (s ! j)" for j
    using that c by (auto simp: key literals_def)
  have R1: "match_ends (Cat (Star True WhiteSpace) ?R1) s j =
            match_ends ?R1 s (j + length (takeWhile is_space (drop j s)))" for j
    using star_space_then[of s "match_ends ?R1 s" j, OF R1_space] by simp
  have top: "match_ends (key_regex key) s i =
     (case drop i s of
        c1 # c2 # _ \<Rightarrow>
          if c1 = CHR ''{'' \<and> c2 = CHR ''{''
          then match_ends (Cat (Star True WhiteSpace) ?R1) s (Suc (Suc i)) else []
      | _ \<Rightarrow> [])"
  proof (cases "drop i s")
    case Nil
    then show ?thesis by (simp add: key_regex_def match_Lit_Cat del: match_ends.simps)
  next
    case (Cons c1 t)
    then have "i < length s" by (cases "i < length s") auto
    with Cons have t: "drop (Suc i) s = t" by (metis Cons_nth_drop_Suc list.inject)
    show ?thesis
      by (cases t) (simp_all add: key_regex_def match_Lit_Cat Cons t del: match_ends.simps)
  qed
  show ?thesis
    unfolding top R1 match_literals R2 R3 token_end_def
    by (simp add: Let_def split: list.splits)
qed


lemma exec_key_regex:
  assumes "plain_key key" and "i \<le> length s"
  shows "exec (key_regex key) s i =
         (case token_end key s i of Some e \<Rightarrow> Some (i, e) | None \<Rightarrow> exec (key_regex key) s (Suc i))"
  using assms(2)
  by (subst exec.simps) (simp add: match_key_regex[OF assms(1)] split: option.splits)

lemma replace_from_skip:
  assumes "i < length s" and "match_ends r s i = []"
  shows "replace_from r tpl s i = s ! i # replace_from r tpl s (Suc i)"
proof -
  from assms have e: "exec r s i = exec r s (Suc i)"
    by (subst exec.simps) simp
  from assms(1) have d: "drop i s = s ! i # drop (Suc i) s" by (simp add: Cons_nth_drop_Suc)
  show ?thesis
  proof (cases "exec r s (Suc i)")
    case None
    with assms(1) e d show ?thesis
      by (simp add: replace_from.simps[of r tpl s i] replace_from.simps[of r tpl s "Suc i"])
  next
    case (Some pe)
    obtain p e' where pe: "pe = (p, e')" by (cases pe)
    from exec_bounds[OF Some[unfolded pe]] have b: "Suc i \<le> p" "p \<le> e'" "e' \<le> length s"
      by simp_all
    then have "p - i = Suc (p - Suc i)" by arith
    with assms(1) e d Some pe show ?thesis
      by (simp add: replace_from.simps[of r tpl s i] replace_from.simps[of r tpl s "Suc i"])
  qed
qed

lemma replace_from_match:
  assumes "i < length s" and "match_ends r s i = e # es" and "i < e"
  shows "replace_from r tpl s i =
         expand tpl (take (e - i) (drop i s)) (take i s) (drop e s) @ replace_from r tpl s e"
proof -
  from assms have "exec r s i = Some (i, e)"
    by (subst exec.simps) simp
  with assms show ?thesis
    by (simp add: replace_from.simps[of r tpl s i])
qed

lemma placeholder_rest_length:
  assumes "placeholder_rest key s = Some rest"
  shows "length rest < length s"
proof -
  from assms placeholder_rest_drop[of key 0 s]
  obtain e where e: "token_end key s 0 = Some e" and r: "rest = drop e s"
    by (cases "token_end key s 0") auto
  from token_end_bounds[OF e] show ?thesis unfolding r length_drop by arith
qed

text \<open>
  \<open>rewrite_placeholders key new s\<close> reads \<open>s\<close> from the left and puts \<open>{{new}}\<close> in the place
  of every placeholder of \<open>key\<close>; the text in between is kept.
\<close>

function rewrite_placeholders :: "string \<Rightarrow> string \<Rightarrow> string \<Rightarrow> string" where
  "rewrite_placeholders key new [] = []"
| "rewrite_placeholders key new (c # cs) =
     (case placeholder_rest key (c # cs) of
        Some rest \<Rightarrow> ''{{'' @ new @ ''}}'' @ rewrite_placeholders key new rest
      | None \<Rightarrow> c # rewrite_placeholders key new cs)"
  by pat_completeness auto
termination
  by (relation "measure (\<lambda>(key, new, s). length s)")
    (auto dest: placeholder_rest_length)

text \<open>On the pattern of a plain key, with a template that has no \<open>$\<close>, the global replace
  of the code is that rewrite.\<close>

lemma replace_from_key_regex:
  assumes key: "plain_key key"
    and tpl: "\<And>m b a. expand tpl m b a = ''{{'' @ new @ ''}}''"
  shows "i \<le> length s \<Longrightarrow>
         replace_from (key_regex key) tpl s i = rewrite_placeholders key new (drop i s)"
proof (induction "length s - i" arbitrary: i rule: less_induct)
  case less
  show ?case
  proof (cases "i < length s")
    case False
    with less.prems have i: "i = length s" by simp
    have "token_end key s i = None" by (simp add: token_end_def i)
    then have "exec (key_regex key) s i = None"
      using exec_key_regex[OF key less.prems]
      by (simp add: i exec.simps[of _ s "Suc (length s)"])
    then show ?thesis
      unfolding i by (simp add: replace_from.simps[of _ tpl s "length s"])
  next
    case True
    then have d: "drop i s = s ! i # drop (Suc i) s" by (simp add: Cons_nth_drop_Suc)
    show ?thesis
    proof (cases "token_end key s i")
      case None
      then have m: "match_ends (key_regex key) s i = []"
        by (simp add: match_key_regex[OF key])
      from None have p: "placeholder_rest key (s ! i # drop (Suc i) s) = None"
        using placeholder_rest_drop[of key i s] by (simp add: d)
      from True have "length s - Suc i < length s - i" "Suc i \<le> length s" by arith+
      from less.hyps[OF this] replace_from_skip[OF True m, of tpl] p show ?thesis
        by (simp add: d)
    next
      case (Some e)
      then have m: "match_ends (key_regex key) s i = [e]"
        by (simp add: match_key_regex[OF key])
      from token_end_bounds[OF Some] have b: "i < e" "e \<le> length s" by simp_all
      from Some have p: "placeholder_rest key (s ! i # drop (Suc i) s) = Some (drop e s)"
        using placeholder_rest_drop[of key i s] by (simp add: d)
      from b True have "length s - e < length s - i" by arith
      from less.hyps[OF this b(2)] replace_from_match[OF True m b(1), of tpl] p show ?thesis
        by (simp add: d tpl)
    qed
  qed
qed

lemma template_parts_plain:
  "CHR ''$'' \<notin> set t \<Longrightarrow> template_parts m t = Inr (map Text t)"
  by (induction m t rule: template_parts.induct) auto

lemma expand_text:
  "expand (map Text t) m b a = t"
  by (induction t) simp_all

text \<open>So for a plain old key and a new key without \<open>$\<close>, \<open>updateMessageVariables\<close> never
  throws and rewrites every placeholder of the old key, whatever white space it has inside
  the braces, and nothing else.\<close>

lemma updateMessageVariables_plain:
  assumes "plain_key oldKey" and "CHR ''$'' \<notin> set newKey"
  shows "updateMessageVariables (JStr s) oldKey newKey =
         Inr (JStr (rewrite_placeholders oldKey newKey s))"
proof (cases "s = []")
  case True
  then show ?thesis by (simp add: updateMessageVariables_def)
next
  case False
  from assms(1) have "pattern_free oldKey"
    by (auto simp: plain_key_def pattern_free_def is_syntax_char_def)
  then have r: "RegExp (key_pattern oldKey) = Inr (key_regex oldKey)"
    by (rule RegExp_plain)
  from assms(2) have t: "template_parts m (''{{'' @ newKey @ ''}}'') =
        Inr (map Text (''{{'' @ newKey @ ''}}''))" for m
    by (intro template_parts_plain) simp
  have "replace_from (key_regex oldKey) (map Text (''{{'' @ newKey @ ''}}'')) s 0 =
        rewrite_placeholders oldKey newKey (drop 0 s)"
    by (rule replace_from_key_regex[OF assms(1) expand_text]) simp
  with False r t show ?thesis
    by (simp add: updateMessageVariables_def del: append.simps)
qed


lemma rewrite_placeholders_example:
  "rewrite_placeholders ''foo'' ''bar'' ''Hi {{ foo }} and {{foo}}, not {{ food }}'' =
   ''Hi {{bar}} and {{bar}}, not {{ food }}''"
  by (simp add: placeholder_rest_def is_space_def)

lemma updateMessageVariables_plain_example:
  "plain_key ''foo'' \<and> CHR ''$'' \<notin> set ''bar'' \<and>
   updateMessageVariables (JStr ''Hi {{ foo }} and {{foo}}'') ''foo'' ''bar'' =
   Inr (JStr ''Hi {{bar}} and {{bar}}'')"
  using updateMessageVariables_plain[of "''foo''" "''bar''" "''Hi {{ foo }} and {{foo}}''"]
  by (simp add: plain_key_def is_syntax_char_def placeholder_rest_def is_space_def)


text \<open>
  The handler as a whole, for a plain old key of the input schema and two messages that
  are strings: it dispatches the config update and the edge update; in the new config the
  schema has the value of the old key under the new key and no old key, and both
  messages have their placeholders rewritten.
\<close>

lemma replace_spaces_chars:
  "c \<in> set (replace_spaces s) \<Longrightarrow> c = CHR ''_'' \<or> c \<in> set s"
proof (induction s arbitrary: c rule: replace_spaces.induct)
  case 1
  then show ?case by simp
next
  case (2 d ds)
  show ?case
  proof (cases "is_space d")
    case True
    with "2.prems" have "c = CHR ''_'' \<or> c \<in> set (replace_spaces (dropWhile is_space ds))"
      by simp
    with "2.IH"(1)[OF True] show ?thesis by (auto dest: set_dropWhileD)
  next
    case False
    with "2.prems" have "c = d \<or> c \<in> set (replace_spaces ds)" by simp
    with "2.IH"(2)[OF False] show ?thesis by auto
  qed
qed

lemma rewrite_message_plain:
  assumes "plain_key oldKey" and "CHR ''$'' \<notin> set newKey"
    and "map_of cfg field = Some (JStr m)"
  shows "rewrite_message (JObj tc cfg) field oldKey newKey uc =
         Inr (if m = [] then uc
              else AList.update field (JStr (rewrite_placeholders oldKey newKey m)) uc)"
  using assms(3)
  by (simp add: rewrite_message_def optprop_def updateMessageVariables_plain[OF assms(1,2)])

lemma handleSchemaKeyEdit_plain_key:
  assumes cfg: "optprop nodeData ''config'' = JObj tc cfg"
    and sch: "map_of cfg ''input_schema'' = Some (JObj ts schema)"
    and old: "map_of schema oldKey = Some v"
    and sm: "map_of cfg ''system_message'' = Some (JStr system_message)"
    and um: "map_of cfg ''user_message'' = Some (JStr user_message)"
    and plain: "plain_key oldKey"
    and nonempty: "newKey \<noteq> []"
    and dollar: "CHR ''$'' \<notin> set newKey"
    and neq: "replace_spaces newKey \<noteq> oldKey"
  shows "\<exists>updatedConfig updatedSchema.
     handleSchemaKeyEdit node_id nodeData oldKey newKey ''input_schema'' =
       Inr [updateNodeData node_id (JObj Alloc [(''config'', JObj Alloc updatedConfig)]),
            updateEdgesOnHandleRename node_id oldKey (replace_spaces newKey) ''input_schema'',
            setEditingField_null] \<and>
     map_of updatedConfig ''input_schema'' = Some (JObj Alloc updatedSchema) \<and>
     map_of updatedSchema (replace_spaces newKey) = Some v \<and>
     map_of updatedSchema oldKey = None \<and>
     (\<forall>k. k \<noteq> oldKey \<and> k \<noteq> replace_spaces newKey \<longrightarrow>
        map_of updatedSchema k = map_of schema k) \<and>
     map_of updatedConfig ''system_message'' =
       Some (JStr (rewrite_placeholders oldKey (replace_spaces newKey) system_message)) \<and>
     map_of updatedConfig ''user_message'' =
       Some (JStr (rewrite_placeholders oldKey (replace_spaces newKey) user_message))"
proof -
  let ?new = "replace_spaces newKey"
  let ?C = "JObj tc cfg"
  define updatedSchema where
    "updatedSchema = AList.delete oldKey (AList.update ?new v (assign [] (JObj ts schema)))"
  define uc0 where
    "uc0 = AList.update ''input_schema'' (JObj Alloc updatedSchema) (assign [] ?C)"
  define uc1 where "uc1 =
    (if system_message = [] then uc0
     else AList.update ''system_message''
            (JStr (rewrite_placeholders oldKey ?new system_message)) uc0)"
  define uc2 where "uc2 =
    (if user_message = [] then uc1
     else AList.update ''user_message''
            (JStr (rewrite_placeholders oldKey ?new user_message)) uc1)"
  define acts where "acts = (\<lambda>uc.
     [updateNodeData node_id (JObj Alloc [(''config'', JObj Alloc uc)]),
      updateEdgesOnHandleRename node_id oldKey ?new ''input_schema'', setEditingField_null])"
  have guard: "\<not> (oldKey = ?new \<or> trim ?new = [])"
    using neq nonempty by (auto simp: trim_replace_spaces replace_spaces_Nil_iff)
  have schema_val: "optprop ?C ''input_schema'' = JObj ts schema"
    using sch by (simp add: optprop_def)
  have old_val: "getprop (JObj ts schema) oldKey = Inr v"
    using old by (simp add: getprop_def)
  have dollar': "CHR ''$'' \<notin> set ?new"
    using dollar replace_spaces_chars[of "CHR ''$''" newKey] by auto
  have r1: "rewrite_message ?C ''system_message'' oldKey ?new uc0 = Inr uc1"
    unfolding uc1_def by (rule rewrite_message_plain[OF plain dollar' sm])
  have r2: "rewrite_message ?C ''user_message'' oldKey ?new uc1 = Inr uc2"
    unfolding uc2_def by (rule rewrite_message_plain[OF plain dollar' um])
  have "handleSchemaKeyEdit node_id nodeData oldKey newKey ''input_schema'' =
        then_do (then_do (rewrite_message ?C ''system_message'' oldKey ?new uc0)
                   (rewrite_message ?C ''user_message'' oldKey ?new))
          (\<lambda>uc. Inr (acts uc))"
    unfolding handleSchemaKeyEdit_def Let_def
    by (simp only: guard if_False cfg schema_val old_val nullish.simps then_do.simps
        updatedSchema_def uc0_def acts_def simp_thms if_True)
  then have h: "handleSchemaKeyEdit node_id nodeData oldKey newKey ''input_schema'' =
                Inr (acts uc2)"
    by (simp add: r1 r2)
  have us: "map_of updatedSchema = ((map_of schema)(?new \<mapsto> v))(oldKey := None)"
    by (simp add: updatedSchema_def delete_conv' update_conv' assign_conv map_of_clearjunk)
  have us_new: "map_of updatedSchema ?new = Some v" using neq by (simp add: us)
  have us_old: "map_of updatedSchema oldKey = None" by (simp add: us)
  have us_rest: "\<forall>k. k \<noteq> oldKey \<and> k \<noteq> ?new \<longrightarrow> map_of updatedSchema k = map_of schema k"
    by (simp add: us)
  have uc0: "map_of uc0 = (map_of cfg)(''input_schema'' \<mapsto> JObj Alloc updatedSchema)"
    by (simp add: uc0_def update_conv' assign_conv map_of_clearjunk)
  have c_schema: "map_of uc2 ''input_schema'' = Some (JObj Alloc updatedSchema)"
    by (simp add: uc2_def uc1_def uc0 update_conv')
  have c_sm: "map_of uc2 ''system_message'' =
              Some (JStr (rewrite_placeholders oldKey ?new system_message))"
    using sm by (simp add: uc2_def uc1_def uc0 update_conv')
  have c_um: "map_of uc2 ''user_message'' =
              Some (JStr (rewrite_placeholders oldKey ?new user_message))"
    using um by (simp add: uc2_def uc1_def uc0 update_conv')
  from h c_schema us_new us_old us_rest c_sm c_um show ?thesis
    unfolding acts_def by blast
qed

lemma handleSchemaKeyEdit_plain_key_instance:
  "\<exists>updatedConfig.
     handleSchemaKeyEdit (JStr ''n1'')
       (JObj (Existing 0)
          [(''config'', JObj (Existing 1)
             [(''input_schema'', JObj (Existing 2) [(''foo'', JStr ''str'')]),
              (''system_message'', JStr ''Hi {{ foo }} and {{foo}}''),
              (''user_message'', JStr ''{{foo  }}?'')])])
       ''foo'' ''first name'' ''input_schema''
     = Inr [updateNodeData (JStr ''n1'')
              (JObj Alloc [(''config'', JObj Alloc updatedConfig)]),
            updateEdgesOnHandleRename (JStr ''n1'') ''foo'' ''first_name'' ''input_schema'',
            setEditingField_null] \<and>
     map_of updatedConfig ''system_message'' = Some (JStr ''Hi {{first_name}} and {{first_name}}'') \<and>
     map_of updatedConfig ''user_message'' = Some (JStr ''{{first_name}}?'')"
  using handleSchemaKeyEdit_plain_key[of
      "JObj (Existing 0)
          [(''config'', JObj (Existing 1)
             [(''input_schema'', JObj (Existing 2) [(''foo'', JStr ''str'')]),
              (''system_message'', JStr ''Hi {{ foo }} and {{foo}}''),
              (''user_message'', JStr ''{{foo  }}?'')])]"
      "Existing 1"
      "[(''input_schema'', JObj (Existing 2) [(''foo'', JStr ''str'')]),
        (''system_message'', JStr ''Hi {{ foo }} and {{foo}}''),
        (''user_message'', JStr ''{{foo  }}?'')]"
      "Existing 2" "[(''foo'', JStr ''str'')]" "''foo''" "JStr ''str''"
      "''Hi {{ foo }} and {{foo}}''" "''{{foo  }}?''" "''first name''" "JStr ''n1''"]
  by (auto simp: optprop_def plain_key_def is_syntax_char_def is_space_def placeholder_rest_def)

section \<open>Properties of the workflow serializer\<close>

lemma find_node_returns:
  "\<forall>n\<in>set nodes. \<not> nullish n \<Longrightarrow> \<exists>r. find_node nodes wanted = Inr r"
  by (induction nodes) (auto simp: getprop_def)

lemma get_own_spread:
  "k \<noteq> ''length'' \<Longrightarrow> map_of (assign [] v) k = None \<Longrightarrow> get_own v k = JUndefined"
  by (simp add: lookup_assign get_own_conv split: option.splits)

lemma get_own_assign:
  "k \<noteq> ''length'' \<Longrightarrow>
   get_own (JObj t (assign [] v)) k = get_own v k"
  by (simp add: lookup_assign get_own_conv split: option.splits)

lemma map_throwing_InrD:
  "map_throwing f xs = Inr ys \<Longrightarrow>
   length ys = length xs \<and> (\<forall>j<length xs. f (xs ! j) = Inr (ys ! j))"
proof (induction xs arbitrary: ys)
  case Nil
  then show ?case by simp
next
  case (Cons x xs)
  from Cons.prems obtain y zs where
    y: "f x = Inr y" and zs: "map_throwing f xs = Inr zs" and ys: "ys = y # zs"
    by (cases "f x"; cases "map_throwing f xs") auto
  from Cons.IH[OF zs] have "length zs = length xs" "\<forall>j<length xs. f (xs ! j) = Inr (zs ! j)"
    by simp_all
  with y ys show ?case by (auto simp: nth_Cons split: nat.splits)
qed

lemma map_throwing_returns:
  "(\<And>x. x \<in> set xs \<Longrightarrow> \<exists>y. f x = Inr y) \<Longrightarrow> \<exists>ys. map_throwing f xs = Inr ys"
proof (induction xs)
  case Nil
  then show ?case by simp
next
  case (Cons x xs)
  from Cons.prems obtain y where "f x = Inr y" by auto
  moreover from Cons obtain ys where "map_throwing f xs = Inr ys" by auto
  ultimately show ?case by simp
qed

lemma update_node_input:
  assumes "update_node workflowInputVariables n = Inr u"
    and "get_own n ''type'' = JStr ''InputNode''"
    and "object_keys workflowInputVariables = [''a'', ''b'']"
  shows "get_own (node_record u) ''id'' = get_own n ''id'' \<and>
         get_own (node_record u) ''node_type'' = JStr ''InputNode'' \<and>
         get_own (get_own (node_record u) ''config'') ''input_schema'' =
           JObj Alloc [(''a'', JStr ''str''), (''b'', JStr ''str'')]"
proof -
  let ?schema = "JObj Alloc [(''a'', JStr ''str''), (''b'', JStr ''str'')]"
  have schema: "fromEntries [(''a'', JStr ''str''), (''b'', JStr ''str'')] = ?schema"
    by (simp add: fromEntries_def)
  from assms have u: "u = JObj Alloc
            (AList.update ''config''
               (JObj Alloc
                  (AList.update ''input_schema'' ?schema
                     (assign [] (get_own (get_own n ''data'') ''config''))))
               (assign [] n))"
    by (auto simp: update_node_def getprop_def Object_keys_def schema split: if_splits)
  have "get_own (node_record u) ''id'' = get_own n ''id''"
    using get_own_assign[of "''id''" Alloc n]
    by (simp add: node_record_def u update_conv')
  moreover have "get_own (node_record u) ''node_type'' = JStr ''InputNode''"
    using get_own_assign[of "''type''" Alloc n] assms(2)
    by (simp add: node_record_def u update_conv')
  moreover have "get_own (get_own (node_record u) ''config'') ''input_schema'' = ?schema"
    by (simp add: node_record_def u update_conv')
  ultimately show ?thesis by blast
qed

lemma update_node_returns:
  assumes "get_own n ''type'' = JStr ''InputNode'' \<longrightarrow>
             \<not> nullish (get_own n ''data'') \<and> \<not> nullish workflowInputVariables"
  shows "\<exists>u. update_node workflowInputVariables n = Inr u"
  using assms by (simp add: update_node_def getprop_def Object_keys_def)

lemma link_record_keys:
  assumes "link_record nodes e = Inr l"
  shows "get_own l ''source_id'' = JStr (source e) \<and>
         get_own l ''source_output_key'' = JStr (sourceHandle e) \<and>
         get_own l ''target_id'' = JStr (target e) \<and>
         get_own l ''target_input_key'' = JStr (targetHandle e)"
  using assms
  by (cases "find_node nodes (source e)"; cases "find_node nodes (target e)")
     (auto simp: link_record_def)

lemma link_record_returns:
  "\<forall>n\<in>set nodes. \<not> nullish n \<Longrightarrow> \<exists>l. link_record nodes e = Inr l"
  using find_node_returns[of nodes "source e"] find_node_returns[of nodes "target e"]
  by (auto simp: link_record_def)

lemmas save_eval =
  saveWorkflow_def present_nodes_def update_node_def node_record_def link_record_def getprop_def optprop_def
  or_else_def assign_def fromEntries_def Object_keys_def object_keys_def

text \<open>
  \<^bold>\<open>Claim C7\<close>. Let the workflow input variables have the names \<open>a\<close> and \<open>b\<close>. For every
  list of nodes and of edges, the document that \<open>saveWorkflow\<close> builds has one record for
  each node that is present and one link for each edge, in order; the record of a node
  of type \<open>InputNode\<close> has the \<open>id\<close> of the node and a config whose \<open>input_schema\<close> is
  \<open>{a: "str", b: "str"}\<close>, whatever schema the node carried; and the link of an edge has
  the source and the \<open>sourceHandle\<close> of the edge as \<open>source_id\<close> and \<open>source_output_key\<close>,
  and its target and \<open>targetHandle\<close> as \<open>target_id\<close> and \<open>target_input_key\<close>: an edge from
  handle \<open>a\<close> into handle \<open>x\<close> gives \<open>source_output_key: "a"\<close> and
  \<open>target_input_key: "x"\<close>. And \<open>saveWorkflow\<close> does build a document for every graph as
  the data model has it: every entry of the node list is a node, and a node of type
  \<open>InputNode\<close> has its \<open>data\<close>.
\<close>

theorem saveWorkflow_input_node:
  assumes vars: "object_keys workflowInputVariables = [''a'', ''b'']"
  shows
    "(\<forall>document.
        saveWorkflow nodes edges workflowInputVariables workflowName testInputs = Inr document \<longrightarrow>
        (\<exists>records links.
           document = JObj Alloc
             [(''name'', workflowName),
              (''definition'', JObj Alloc
                 [(''nodes'', JArr Alloc records),
                  (''links'', JArr Alloc links),
                  (''test_inputs'', testInputs)])] \<and>
           length records = length (present_nodes nodes) \<and> length links = length edges \<and>
           (\<forall>i<length (present_nodes nodes).
              get_own (present_nodes nodes ! i) ''type'' = JStr ''InputNode'' \<longrightarrow>
              get_own (records ! i) ''id'' = get_own (present_nodes nodes ! i) ''id'' \<and>
              get_own (records ! i) ''node_type'' = JStr ''InputNode'' \<and>
              get_own (get_own (records ! i) ''config'') ''input_schema'' =
                JObj Alloc [(''a'', JStr ''str''), (''b'', JStr ''str'')]) \<and>
           (\<forall>j<length edges.
              get_own (links ! j) ''source_id'' = JStr (source (edges ! j)) \<and>
              get_own (links ! j) ''source_output_key'' = JStr (sourceHandle (edges ! j)) \<and>
              get_own (links ! j) ''target_id'' = JStr (target (edges ! j)) \<and>
              get_own (links ! j) ''target_input_key'' = JStr (targetHandle (edges ! j)))))
     \<and>
     ((\<forall>n\<in>set nodes. \<not> nullish n) \<and>
      (\<forall>n\<in>set nodes. get_own n ''type'' = JStr ''InputNode'' \<longrightarrow> \<not> nullish (get_own n ''data'')) \<longrightarrow>
      (\<exists>document.
         saveWorkflow nodes edges workflowInputVariables workflowName testInputs = Inr document))"
proof (intro conjI allI impI)
  fix document
  assume saved: "saveWorkflow nodes edges workflowInputVariables workflowName testInputs = Inr document"
  then obtain us ls where
    us: "map_throwing (update_node workflowInputVariables) (present_nodes nodes) = Inr us" and
    ls: "map_throwing (link_record nodes) edges = Inr ls" and
    doc: "document = JObj Alloc
             [(''name'', workflowName),
              (''definition'', JObj Alloc
                 [(''nodes'', JArr Alloc (map node_record us)),
                  (''links'', JArr Alloc ls),
                  (''test_inputs'', testInputs)])]"
    by (cases "map_throwing (update_node workflowInputVariables) (present_nodes nodes)";
        cases "map_throwing (link_record nodes) edges")
       (auto simp: saveWorkflow_def)
  from map_throwing_InrD[OF us] have
    ul: "length us = length (present_nodes nodes)" and
    un: "\<forall>j<length (present_nodes nodes).
           update_node workflowInputVariables (present_nodes nodes ! j) = Inr (us ! j)"
    by simp_all
  from map_throwing_InrD[OF ls] have
    ll: "length ls = length edges" and
    ln: "\<forall>j<length edges. link_record nodes (edges ! j) = Inr (ls ! j)"
    by simp_all
  have recs: "\<forall>i<length (present_nodes nodes).
              get_own (present_nodes nodes ! i) ''type'' = JStr ''InputNode'' \<longrightarrow>
              get_own (map node_record us ! i) ''id'' = get_own (present_nodes nodes ! i) ''id'' \<and>
              get_own (map node_record us ! i) ''node_type'' = JStr ''InputNode'' \<and>
              get_own (get_own (map node_record us ! i) ''config'') ''input_schema'' =
                JObj Alloc [(''a'', JStr ''str''), (''b'', JStr ''str'')]"
  proof (intro allI impI)
    fix i
    assume i: "i < length (present_nodes nodes)"
      and t: "get_own (present_nodes nodes ! i) ''type'' = JStr ''InputNode''"
    from un i have "update_node workflowInputVariables (present_nodes nodes ! i) = Inr (us ! i)"
      by simp
    from update_node_input[OF this t vars] i ul
    show "get_own (map node_record us ! i) ''id'' = get_own (present_nodes nodes ! i) ''id'' \<and>
          get_own (map node_record us ! i) ''node_type'' = JStr ''InputNode'' \<and>
          get_own (get_own (map node_record us ! i) ''config'') ''input_schema'' =
            JObj Alloc [(''a'', JStr ''str''), (''b'', JStr ''str'')]"
      by simp
  qed
  have links: "\<forall>j<length edges.
              get_own (ls ! j) ''source_id'' = JStr (source (edges ! j)) \<and>
              get_own (ls ! j) ''source_output_key'' = JStr (sourceHandle (edges ! j)) \<and>
              get_own (ls ! j) ''target_id'' = JStr (target (edges ! j)) \<and>
              get_own (ls ! j) ''target_input_key'' = JStr (targetHandle (edges ! j))"
    using ln link_record_keys by blast
  from doc ul ll recs links
  show "\<exists>records links.
           document = JObj Alloc
             [(''name'', workflowName),
              (''definition'', JObj Alloc
                 [(''nodes'', JArr Alloc records),
                  (''links'', JArr Alloc links),
                  (''test_inputs'', testInputs)])] \<and>
           length records = length (present_nodes nodes) \<and> length links = length edges \<and>
           (\<forall>i<length (present_nodes nodes).
              get_own (present_nodes nodes ! i) ''type'' = JStr ''InputNode'' \<longrightarrow>
              get_own (records ! i) ''id'' = get_own (present_nodes nodes ! i) ''id'' \<and>
              get_own (records ! i) ''node_type'' = JStr ''InputNode'' \<and>
              get_own (get_own (records ! i) ''config'') ''input_schema'' =
                JObj Alloc [(''a'', JStr ''str''), (''b'', JStr ''str'')]) \<and>
           (\<forall>j<length edges.
              get_own (links ! j) ''source_id'' = JStr (source (edges ! j)) \<and>
              get_own (links ! j) ''source_output_key'' = JStr (sourceHandle (edges ! j)) \<and>
              get_own (links ! j) ''target_id'' = JStr (target (edges ! j)) \<and>
              get_own (links ! j) ''target_input_key'' = JStr (targetHandle (edges ! j)))"
    by (intro exI[of _ "map node_record us"] exI[of _ ls]) simp
next
  assume wf: "(\<forall>n\<in>set nodes. \<not> nullish n) \<and>
      (\<forall>n\<in>set nodes. get_own n ''type'' = JStr ''InputNode'' \<longrightarrow> \<not> nullish (get_own n ''data''))"
  have w: "\<not> nullish workflowInputVariables"
    using vars by (cases workflowInputVariables) (simp_all add: object_keys_def)
  have "\<exists>u. update_node workflowInputVariables n = Inr u" if "n \<in> set (present_nodes nodes)" for n
    using that wf w by (intro update_node_returns) (auto simp: present_nodes_def)
  then obtain us where
    "map_throwing (update_node workflowInputVariables) (present_nodes nodes) = Inr us"
    using map_throwing_returns[of "present_nodes nodes" "update_node workflowInputVariables"]
    by blast
  moreover from wf have "\<exists>l. link_record nodes e = Inr l" for e
    by (intro link_record_returns) simp
  then obtain ls where "map_throwing (link_record nodes) edges = Inr ls"
    using map_throwing_returns[of edges "link_record nodes"] by blast
  ultimately show "\<exists>document.
         saveWorkflow nodes edges workflowInputVariables workflowName testInputs = Inr document"
    by (simp add: saveWorkflow_def)
qed

theorem saveWorkflow_input_node_witness:
  "\<exists>records links.
    saveWorkflow
      [JObj (Existing 0)
         [(''id'', JStr ''in''), (''type'', JStr ''InputNode''), (''position'', JNull),
          (''data'', JObj (Existing 2)
             [(''title'', JStr ''Input''),
              (''config'', JObj (Existing 3)
                 [(''input_schema'', JObj (Existing 4) [(''old'', JStr ''int'')])])])],
       JObj (Existing 5)
         [(''id'', JStr ''llm''), (''type'', JStr ''LLMNode''), (''position'', JNull),
          (''data'', JObj (Existing 6) [(''title'', JStr ''LLM''), (''config'', JObj (Existing 7) [])])]]
      [\<lparr>source = ''in'', sourceHandle = ''a'', target = ''llm'', targetHandle = ''x''\<rparr>]
      (JObj (Existing 8) [(''a'', JStr ''1''), (''b'', JStr ''2'')]) (JStr ''wf'') JNull =
      Inr (JObj Alloc
        [(''name'', JStr ''wf''),
         (''definition'', JObj Alloc
            [(''nodes'', JArr Alloc records),
             (''links'', JArr Alloc links),
             (''test_inputs'', JNull)])]) \<and>
    get_own (get_own (records ! 0) ''config'') ''input_schema'' =
      JObj Alloc [(''a'', JStr ''str''), (''b'', JStr ''str'')] \<and>
    get_own (links ! 0) ''source_output_key'' = JStr ''a'' \<and>
    get_own (links ! 0) ''target_input_key'' = JStr ''x''"
proof -
  let ?n1 = "JObj (Existing 0)
         [(''id'', JStr ''in''), (''type'', JStr ''InputNode''), (''position'', JNull),
          (''data'', JObj (Existing 2)
             [(''title'', JStr ''Input''),
              (''config'', JObj (Existing 3)
                 [(''input_schema'', JObj (Existing 4) [(''old'', JStr ''int'')])])])]"
  let ?n2 = "JObj (Existing 5)
         [(''id'', JStr ''llm''), (''type'', JStr ''LLMNode''), (''position'', JNull),
          (''data'', JObj (Existing 6) [(''title'', JStr ''LLM''), (''config'', JObj (Existing 7) [])])]"
  let ?e = "\<lparr>source = ''in'', sourceHandle = ''a'', target = ''llm'', targetHandle = ''x''\<rparr>"
  let ?w = "JObj (Existing 8) [(''a'', JStr ''1''), (''b'', JStr ''2'')]"
  have vars: "object_keys ?w = [''a'', ''b'']" by (simp add: object_keys_def)
  have wf: "(\<forall>n\<in>set [?n1, ?n2]. \<not> nullish n) \<and>
      (\<forall>n\<in>set [?n1, ?n2]. get_own n ''type'' = JStr ''InputNode'' \<longrightarrow>
         \<not> nullish (get_own n ''data''))"
    by simp
  have present: "present_nodes [?n1, ?n2] = [?n1, ?n2]" by (simp add: present_nodes_def)
  note inst = saveWorkflow_input_node[OF vars, of "[?n1, ?n2]" "[?e]" "JStr ''wf''" JNull]
  from inst wf obtain document where
    saved: "saveWorkflow [?n1, ?n2] [?e] ?w (JStr ''wf'') JNull = Inr document"
    by blast
  with inst obtain records links where
    doc: "document = JObj Alloc
        [(''name'', JStr ''wf''),
         (''definition'', JObj Alloc
            [(''nodes'', JArr Alloc records),
             (''links'', JArr Alloc links),
             (''test_inputs'', JNull)])]"
    and recs: "\<forall>i<length (present_nodes [?n1, ?n2]).
              get_own (present_nodes [?n1, ?n2] ! i) ''type'' = JStr ''InputNode'' \<longrightarrow>
              get_own (records ! i) ''id'' = get_own (present_nodes [?n1, ?n2] ! i) ''id'' \<and>
              get_own (records ! i) ''node_type'' = JStr ''InputNode'' \<and>
              get_own (get_own (records ! i) ''config'') ''input_schema'' =
                JObj Alloc [(''a'', JStr ''str''), (''b'', JStr ''str'')]"
    and lnks: "\<forall>j<length [?e].
       get_own (links ! j) ''source_id'' = JStr (source ([?e] ! j)) \<and>
       get_own (links ! j) ''source_output_key'' = JStr (sourceHandle ([?e] ! j)) \<and>
       get_own (links ! j) ''target_id'' = JStr (target ([?e] ! j)) \<and>
       get_own (links ! j) ''target_input_key'' = JStr (targetHandle ([?e] ! j))"
    by blast
  from recs have "get_own (get_own (records ! 0) ''config'') ''input_schema'' =
         JObj Alloc [(''a'', JStr ''str''), (''b'', JStr ''str'')]"
    unfolding present by simp
  moreover from lnks have "get_own (links ! 0) ''source_output_key'' = JStr ''a''"
    and "get_own (links ! 0) ''target_input_key'' = JStr ''x''"
    by simp_all
  ultimately show ?thesis using saved doc by blast
qed

text \<open>The nodes that are not present are filtered out for the records only: the callback
  for the links searches the whole list, and throws at a \<open>null\<close> entry that it reaches. The
  exception is caught and logged, and no document is sent.\<close>

lemma saveWorkflow_null_node:
  "saveWorkflow
     [JObj (Existing 0)
        [(''id'', JStr ''in''), (''type'', JStr ''InputNode''), (''position'', JNull),
         (''data'', JObj (Existing 2) [(''config'', JObj (Existing 3) [])])],
      JNull]
     [\<lparr>source = ''in'', sourceHandle = ''a'', target = ''llm'', targetHandle = ''x''\<rparr>]
     (JObj (Existing 8) [(''a'', JStr ''1''), (''b'', JStr ''2'')]) (JStr ''wf'') JNull
   = Inl TypeError"
  by (simp add: save_eval)

text \<open>
  \<^bold>\<open>Claim C8\<close> says that the link of an edge carries the type that the schema of the
  source node gives to the \<open>sourceHandle\<close> (and likewise for the target), with \<open>"str"\<close>
  only when the schema has no entry. The schemas of a node of the store are in
  \<open>node.data.config\<close>, where the first callback of \<open>saveWorkflow\<close> reads them; the callback
  for the links reads \<open>sourceNode?.config?.data?.output_schema\<close>, with \<open>config\<close> and \<open>data\<close>
  swapped, and a node of the store has no \<open>config\<close> of its own. Here the output schema of
  the source says \<open>int\<close> and the input schema of the target says \<open>float\<close>; both types of
  the link are \<open>str\<close>.
\<close>

theorem saveWorkflow_link_types:
  "map_sum id (\<lambda>document. get_own (get_own document ''definition'') ''links'')
     (saveWorkflow
        [JObj (Existing 0)
           [(''id'', JStr ''llm''), (''type'', JStr ''LLMNode''), (''position'', JNull),
            (''data'', JObj (Existing 2)
               [(''title'', JStr ''LLM''),
                (''config'', JObj (Existing 3)
                   [(''output_schema'', JObj (Existing 4) [(''response'', JStr ''int'')])])])],
         JObj (Existing 5)
           [(''id'', JStr ''out''), (''type'', JStr ''OutputNode''), (''position'', JNull),
            (''data'', JObj (Existing 6)
               [(''title'', JStr ''Out''),
                (''config'', JObj (Existing 7)
                   [(''input_schema'', JObj (Existing 8) [(''text'', JStr ''float'')])])])]]
        [\<lparr>source = ''llm'', sourceHandle = ''response'', target = ''out'', targetHandle = ''text''\<rparr>]
        (JObj (Existing 9) []) (JStr ''wf'') JNull)
   = Inr (JArr Alloc
       [JObj Alloc
          [(''source_id'', JStr ''llm''),
           (''source_output_key'', JStr ''response''),
           (''source_output_type'', JStr ''str''),
           (''target_id'', JStr ''out''),
           (''target_input_key'', JStr ''text''),
           (''target_input_type'', JStr ''str'')]])"
  by (simp add: save_eval)

text \<open>It is so for every graph whose nodes have no \<open>config\<close> beside their \<open>data\<close>.\<close>

lemma find_node_result:
  "find_node nodes wanted = Inr r \<Longrightarrow> r = JUndefined \<or> r \<in> set nodes"
  by (induction nodes) (auto simp: getprop_def split: if_splits)

lemma link_record_types_default:
  assumes "\<forall>n\<in>set nodes. get_own n ''config'' = JUndefined"
    and "link_record nodes e = Inr l"
  shows "get_own l ''source_output_type'' = JStr ''str'' \<and>
         get_own l ''target_input_type'' = JStr ''str''"
proof -
  from assms(2) obtain s t where
    s: "find_node nodes (source e) = Inr s" and t: "find_node nodes (target e) = Inr t"
    by (cases "find_node nodes (source e)"; cases "find_node nodes (target e)")
       (auto simp: link_record_def)
  from find_node_result[OF s] assms(1) have "optprop s ''config'' = JUndefined"
    by (auto simp: optprop_def)
  moreover from find_node_result[OF t] assms(1) have "optprop t ''config'' = JUndefined"
    by (auto simp: optprop_def)
  ultimately show ?thesis
    using assms(2) s t by (auto simp: link_record_def optprop_def or_else_def)
qed

section \<open>Properties of the config form\<close>

lemma parseFloat_examples:
  "parseFloat ''abc'' = NaN"
  "parseFloat '''' = NaN"
  "parseFloat ''32'' = Fin 32"
  "parseFloat ''12.5'' = Fin (25 / 2)"
  "parseFloat ''  -3e2px'' = Fin (- 300)"
  "parseFloat ''.5'' = Fin (1 / 2)"
  "parseFloat ''5e'' = Fin 5"
  "parseFloat ''-Infinity'' = NegInfinity"
  by (simp_all add: parseFloat_def unsigned_number_def unsigned_decimal_def exponent_part_def
      signed_integer_def scale10_def digits_value_def is_digit_def is_space_def Let_def)

text \<open>
  For a field of the config itself (its key has no dot) the free numeric input does what
  C10 says: the handler sets the local model and dispatches at once one config update; in
  it the field holds \<open>0\<close> when \<open>parseFloat\<close> reads no number from the text, and the number
  read otherwise; it never holds \<open>NaN\<close>.
\<close>

lemma number_onChange_top_level:
  assumes "CHR ''.'' \<notin> set key"
  shows "\<exists>updatedModel.
    number_onChange updateNestedModel nodeID dynamicModel key text_value =
      [setDynamicModel updatedModel,
       dispatch (updateNodeData nodeID (JObj Alloc [(''config'', updatedModel)]))] \<and>
    get_own updatedModel key =
      JNum (if parseFloat text_value = NaN then Fin 0 else parseFloat text_value) \<and>
    get_own updatedModel key \<noteq> JNum NaN"
  using assms
  by (simp add: number_onChange_def handleInputChange_def Let_def update_conv')

lemma number_onChange_top_level_example:
  "number_onChange updateNestedModel (JStr ''n1'')
     (JObj (Existing 0) [(''max_tokens'', JNum (Fin 16))]) ''max_tokens'' ''12.5'' =
   [setDynamicModel (JObj Alloc [(''max_tokens'', JNum (Fin (25 / 2)))]),
    dispatch (updateNodeData (JStr ''n1'')
      (JObj Alloc [(''config'', JObj Alloc [(''max_tokens'', JNum (Fin (25 / 2)))])]))]"
  by (simp add: number_onChange_def handleInputChange_def assign_def Let_def
      parseFloat_examples)

text \<open>
  But \<open>renderField\<close> gives the free numeric input the bare key of the field, whatever the
  parent path is.
\<close>

lemma renderField_number_input:
  assumes "reserved_widget metadata key parentPath = None"
    and "metadata (full_path parentPath key) = JUndefined"
  shows "renderField (JNum n) metadata key v parentPath = NumberInput key v"
  using assms by (simp add: or_reserved_def number_widget_def)

text \<open>
  \<^bold>\<open>Claim C10\<close> says that the text typed into the free numeric input is stored for that
  field: the number parsed, or \<open>0\<close> when the text does not parse. For a number inside a
  nested object of the config this fails. Take a node type whose config is
  \<open>{llm_info: {max_tokens: 16}}\<close>, with no minimum or maximum in the metadata: the form
  shows one numeric input, with the key \<open>max_tokens\<close> and the value \<open>16\<close> of
  \<open>llm_info.max_tokens\<close>. Typing \<open>32\<close> (or \<open>abc\<close>) into it adds a key \<open>max_tokens\<close> with \<open>32\<close>
  (or \<open>0\<close>) to the config itself, and \<open>llm_info.max_tokens\<close> stays \<open>16\<close>.
\<close>

theorem number_input_nested_field:
  "renderConfigFields ''LLMNode''
     (JObj (Existing 0)
        [(''name'', JStr ''LLMNode''),
         (''config'', JObj (Existing 1)
            [(''llm_info'', JObj (Existing 2) [(''max_tokens'', JNum (Fin 16))])])])
     (JObj (Existing 3) [(''llm_info'', JObj (Existing 4) [(''max_tokens'', JNum (Fin 16))])])
     (\<lambda>path. JUndefined)
   = Some [Div [NumberInput ''max_tokens'' (JNum (Fin 16))]] \<and>
   number_onChange updateNestedModel (JStr ''n1'')
     (JObj (Existing 3) [(''llm_info'', JObj (Existing 4) [(''max_tokens'', JNum (Fin 16))])])
     ''max_tokens'' ''32''
   = [setDynamicModel
        (JObj Alloc [(''llm_info'', JObj (Existing 4) [(''max_tokens'', JNum (Fin 16))]),
                     (''max_tokens'', JNum (Fin 32))]),
      dispatch (updateNodeData (JStr ''n1'')
        (JObj Alloc [(''config'',
           JObj Alloc [(''llm_info'', JObj (Existing 4) [(''max_tokens'', JNum (Fin 16))]),
                       (''max_tokens'', JNum (Fin 32))])]))] \<and>
   number_onChange updateNestedModel (JStr ''n1'')
     (JObj (Existing 3) [(''llm_info'', JObj (Existing 4) [(''max_tokens'', JNum (Fin 16))])])
     ''max_tokens'' ''abc''
   = [setDynamicModel
        (JObj Alloc [(''llm_info'', JObj (Existing 4) [(''max_tokens'', JNum (Fin 16))]),
                     (''max_tokens'', JNum (Fin 0))]),
      dispatch (updateNodeData (JStr ''n1'')
        (JObj Alloc [(''config'',
           JObj Alloc [(''llm_info'', JObj (Existing 4) [(''max_tokens'', JNum (Fin 16))]),
                       (''max_tokens'', JNum (Fin 0))])]))]"
  by (simp add: renderConfigFields_def object_keys_def or_reserved_def reserved_widget_def
      number_widget_def full_path_def optprop_def number_onChange_def handleInputChange_def
      assign_def Let_def parseFloat_examples)

theorem number_input_nested_field_witness:
  "renderConfigFields ''LLMNode''
     (JObj (Existing 0)
        [(''name'', JStr ''LLMNode''),
         (''config'', JObj (Existing 1)
            [(''llm_info'', JObj (Existing 2) [(''max_tokens'', JNum (Fin 16))])])])
     (JObj (Existing 3) [(''llm_info'', JObj (Existing 4) [(''max_tokens'', JNum (Fin 16))])])
     (\<lambda>path. JUndefined)
   = Some [Div [NumberInput ''max_tokens'' (JNum (Fin 16))]] \<and>
   number_onChange (\<lambda>model path v. model) (JStr ''n1'')
     (JObj (Existing 3) [(''llm_info'', JObj (Existing 4) [(''max_tokens'', JNum (Fin 16))])])
     ''max_tokens'' ''32''
   = [setDynamicModel
        (JObj Alloc [(''llm_info'', JObj (Existing 4) [(''max_tokens'', JNum (Fin 16))]),
                     (''max_tokens'', JNum (Fin 32))]),
      dispatch (updateNodeData (JStr ''n1'')
        (JObj Alloc [(''config'',
           JObj Alloc [(''llm_info'', JObj (Existing 4) [(''max_tokens'', JNum (Fin 16))]),
                       (''max_tokens'', JNum (Fin 32))])]))] \<and>
   number_onChange (\<lambda>model path v. model) (JStr ''n1'')
     (JObj (Existing 3) [(''llm_info'', JObj (Existing 4) [(''max_tokens'', JNum (Fin 16))])])
     ''max_tokens'' ''abc''
   = [setDynamicModel
        (JObj Alloc [(''llm_info'', JObj (Existing 4) [(''max_tokens'', JNum (Fin 16))]),
                     (''max_tokens'', JNum (Fin 0))]),
      dispatch (updateNodeData (JStr ''n1'')
        (JObj Alloc [(''config'',
           JObj Alloc [(''llm_info'', JObj (Existing 4) [(''max_tokens'', JNum (Fin 16))]),
                       (''max_tokens'', JNum (Fin 0))])]))]"
  by (rule number_input_nested_field)

text \<open>
  The slider, which \<open>renderField\<close> gives the same number when its metadata has a minimum or
  a maximum, builds the path of the nested field and writes there.
\<close>

lemma slider_onChange_nested_field:
  "renderConfigFields ''LLMNode''
     (JObj (Existing 0)
        [(''name'', JStr ''LLMNode''),
         (''config'', JObj (Existing 1)
            [(''llm_info'', JObj (Existing 2) [(''max_tokens'', JNum (Fin 16))])])])
     (JObj (Existing 3) [(''llm_info'', JObj (Existing 4) [(''max_tokens'', JNum (Fin 16))])])
     (\<lambda>path. if path = ''LLMNode.config.llm_info.max_tokens''
              then JObj (Existing 5) [(''minimum'', JNum (Fin 1))] else JUndefined)
   = Some [Div [Slider ''LLMNode.config.llm_info'' ''max_tokens'']] \<and>
   slider_onChange updateNestedModel nodeID dynamicModel
     ''LLMNode.config.llm_info'' ''max_tokens'' newValue
   = Inr [setDynamicModel (updateNestedModel dynamicModel ''llm_info.max_tokens'' newValue),
          debouncedDispatch nodeID
            (updateNestedModel dynamicModel ''llm_info.max_tokens'' newValue)]"
  by (simp add: renderConfigFields_def object_keys_def or_reserved_def reserved_widget_def
      number_widget_def full_path_def optprop_def slider_onChange_def handleInputChange_def
      last_two_def Let_def)

end
